theory Spec2Isabelle
  imports Main
begin

section \<open>Batch conversion of .m4a files (convert_audio.py)\<close>

text \<open>
  The script drives the external program ffmpeg over the files of a directory. The model
  follows the three functions of the source, \<open>check_ffmpeg\<close>, \<open>convert_audio\<close> and
  \<open>batch_convert\<close>. What they use of Python's standard library is modelled beside them:
  \<open>pathlib\<close> paths in their POSIX flavour (the semantics of Python 3.5 to 3.13), the
  directory operations of a filesystem without symbolic links and without permission
  errors, \<open>subprocess.run\<close> over an arbitrary external program, and \<open>print\<close> on an
  arbitrary output stream.
\<close>

subsection \<open>Strings\<close>

text \<open>\<open>s.split(sep)\<close> for a one-character separator: never empty, one more piece than separators.\<close>

fun str_split :: "char \<Rightarrow> string \<Rightarrow> string list" where
  "str_split sep [] = [[]]"
| "str_split sep (c # cs) =
     (if c = sep then [] # str_split sep cs
      else (case str_split sep cs of w # ws \<Rightarrow> (c # w) # ws | [] \<Rightarrow> [[c]]))"

text \<open>\<open>sep.join(xs)\<close>.\<close>

fun sep_join :: "string \<Rightarrow> string list \<Rightarrow> string" where
  "sep_join sep [] = []"
| "sep_join sep [x] = x"
| "sep_join sep (x # y # ys) = x @ sep @ sep_join sep (y # ys)"

text \<open>\<open>s.rfind(c)\<close>: the highest index of \<open>c\<close> in \<open>s\<close>, or -1.\<close>

fun rfind :: "string \<Rightarrow> char \<Rightarrow> int" where
  "rfind [] c = - 1"
| "rfind (x # xs) c =
     (let r = rfind xs c in if 0 \<le> r then r + 1 else if x = c then 0 else - 1)"

subsection \<open>pathlib: pure POSIX paths\<close>

text \<open>
  A path is its root (\<open>''''\<close>, \<open>''/''\<close> or \<open>''//''\<close>) and the list of its components; POSIX
  paths have no drive.
\<close>

datatype path = PosixPath (root: string) (tail: "string list")

text \<open>\<open>posixpath.splitroot\<close>, without the drive: exactly two leading slashes are a root of their own.\<close>

definition splitroot :: "string \<Rightarrow> string \<times> string" where
  "splitroot p =
     (if take 1 p \<noteq> ''/'' then ([], p)
      else if take 1 (drop 1 p) \<noteq> ''/'' \<or> take 1 (drop 2 p) = ''/'' then (''/'', drop 1 p)
      else (take 2 p, drop 2 p))"

text \<open>Parsing a string: empty components and \<open>.\<close> components are dropped, \<open>..\<close> is kept.\<close>

definition parse_path :: "string \<Rightarrow> path" where
  "parse_path s =
     (case splitroot s of
        (r, rel) \<Rightarrow> PosixPath r (filter (\<lambda>x. x \<noteq> [] \<and> x \<noteq> ''.'') (str_split CHR ''/'' rel)))"

text \<open>The argument of \<open>Path(...)\<close> is a string or a path object.\<close>

datatype pathlike = Str string | PathObj path

fun Path :: "pathlike \<Rightarrow> path" where
  "Path (Str s) = parse_path s"
| "Path (PathObj p) = p"

text \<open>\<open>str(p)\<close>: the empty path prints as \<open>.\<close>.\<close>

definition str_path :: "path \<Rightarrow> string" where
  "str_path p = (let s = root p @ sep_join ''/'' (tail p) in if s = [] then ''.'' else s)"

text \<open>\<open>p.parent\<close>: a path without components is its own parent.\<close>

definition parent :: "path \<Rightarrow> path" where
  "parent p = (if tail p = [] then p else PosixPath (root p) (butlast (tail p)))"

text \<open>\<open>p.name\<close>: the last component, empty when there is none.\<close>

definition name :: "path \<Rightarrow> string" where
  "name p = (if tail p = [] then [] else last (tail p))"

text \<open>
  \<open>p.stem\<close>: the name without its last suffix. A dot at index 0 or at the end of the name
  starts no suffix.
\<close>

definition stem :: "path \<Rightarrow> string" where
  "stem p =
     (let n = name p; i = rfind n CHR ''.''
      in if 0 < i \<and> i < int (length n) - 1 then take (nat i) n else n)"

text \<open>\<open>p / key\<close> for a string \<open>key\<close>: an absolute key replaces \<open>p\<close>, a relative one extends it.\<close>

definition joinpath :: "path \<Rightarrow> string \<Rightarrow> path" where
  "joinpath p key =
     (let k = parse_path key
      in if root k \<noteq> [] then k else PosixPath (root p) (tail p @ tail k))"

subsection \<open>convert_audio: output file and command line\<close>

text \<open>Truthiness of \<open>output_dir\<close> in \<open>if output_dir:\<close>: \<open>None\<close> and the empty string are false.\<close>

fun truthy :: "string option \<Rightarrow> bool" where
  "truthy None = False"
| "truthy (Some d) = (d \<noteq> [])"

text \<open>Lines 39 to 43, the value of \<open>out_dir\<close> (the directory is created in \<open>convert_audio\<close> below).\<close>

definition out_dir :: "pathlike \<Rightarrow> string option \<Rightarrow> path" where
  "out_dir input_file output_dir =
     (case output_dir of
        Some d \<Rightarrow> if d \<noteq> [] then Path (Str d) else parent (Path input_file)
      | None \<Rightarrow> parent (Path input_file))"

text \<open>Line 46: \<open>out_dir / f"{input_path.stem}.{output_format}"\<close>.\<close>

definition output_file :: "pathlike \<Rightarrow> string \<Rightarrow> string option \<Rightarrow> path" where
  "output_file input_file output_format output_dir =
     joinpath (out_dir input_file output_dir) (stem (Path input_file) @ ''.'' @ output_format)"

text \<open>Lines 52 to 60: the arguments that select the encoder.\<close>

definition codec_args :: "string \<Rightarrow> string \<Rightarrow> string list" where
  "codec_args output_format quality =
     (if output_format = ''mp3'' then
        (if quality = ''high'' then [''-codec:a'', ''libmp3lame'', ''-b:a'', ''320k'']
         else if quality = ''medium'' then [''-codec:a'', ''libmp3lame'', ''-b:a'', ''192k'']
         else [''-codec:a'', ''libmp3lame'', ''-b:a'', ''128k''])
      else if output_format = ''wav'' then [''-codec:a'', ''pcm_s16le'']
      else [])"

text \<open>Lines 49 to 62: the list \<open>cmd\<close> handed to \<open>subprocess.run\<close>.\<close>

definition convert_cmd :: "pathlike \<Rightarrow> string \<Rightarrow> string option \<Rightarrow> string \<Rightarrow> string list" where
  "convert_cmd input_file output_format output_dir quality =
     [''ffmpeg'', ''-i'', str_path (Path input_file)]
     @ codec_args output_format quality
     @ [''-y'', str_path (output_file input_file output_format output_dir)]"

subsection \<open>Filesystem\<close>

text \<open>
  A directory is the list of its entries in the order \<open>os.scandir\<close> yields them. The
  filesystem is the tree under \<open>/\<close> and the working directory, given by the names on the
  way down from the root. There are no symbolic links and no permissions.
\<close>

datatype node = File | Dir "(string \<times> node) list"

record filesystem =
  root_dir :: node
  cwd :: "string list"

text \<open>
  The subclasses of \<open>OSError\<close> that the program can meet. The directory operations below
  raise the first three; \<open>PermissionError\<close> is an error of launching a program that is
  there but cannot be executed.
\<close>

datatype os_error = FileNotFoundError | FileExistsError | NotADirectoryError | PermissionError

text \<open>The node at a location; among entries of one name the first is the one found.\<close>

fun lookup :: "node \<Rightarrow> string list \<Rightarrow> node option"
  and lookup_child :: "(string \<times> node) list \<Rightarrow> string \<Rightarrow> string list \<Rightarrow> node option" where
  "lookup n [] = Some n"
| "lookup File (c # p) = None"
| "lookup (Dir cs) (c # p) = lookup_child cs c p"
| "lookup_child [] c p = None"
| "lookup_child ((k, v) # cs) c p = (if k = c then lookup v p else lookup_child cs c p)"

text \<open>
  Path resolution as the kernel does it, component by component from the location \<open>cur\<close>:
  every component is looked up in a directory, \<open>..\<close> steps to the parent (the root is its
  own parent).
\<close>

fun walk :: "node \<Rightarrow> string list \<Rightarrow> string list \<Rightarrow> os_error + string list" where
  "walk r cur [] = Inr cur"
| "walk r cur (c # cs) =
     (case lookup r cur of
        None \<Rightarrow> Inl FileNotFoundError
      | Some File \<Rightarrow> Inl NotADirectoryError
      | Some (Dir es) \<Rightarrow>
          if c = ''..'' then walk r (butlast cur) cs
          else (case lookup r (cur @ [c]) of
                  None \<Rightarrow> Inl FileNotFoundError
                | Some n \<Rightarrow> walk r (cur @ [c]) cs))"

text \<open>Where the resolution of a path starts: at the root for a rooted path, else at the working directory.\<close>

definition start :: "filesystem \<Rightarrow> path \<Rightarrow> string list" where
  "start fs p = (if root p = [] then cwd fs else [])"

definition resolve :: "filesystem \<Rightarrow> path \<Rightarrow> os_error + string list \<times> node" where
  "resolve fs p =
     (case walk (root_dir fs) (start fs p) (tail p) of
        Inl e \<Rightarrow> Inl e
      | Inr loc \<Rightarrow>
          (case lookup (root_dir fs) loc of
             None \<Rightarrow> Inl FileNotFoundError
           | Some n \<Rightarrow> Inr (loc, n)))"

text \<open>\<open>p.exists()\<close> and \<open>p.is_dir()\<close>: a path that does not resolve gives \<open>False\<close>.\<close>

definition exists :: "path \<Rightarrow> filesystem \<Rightarrow> bool" where
  "exists p fs = (case resolve fs p of Inl e \<Rightarrow> False | Inr ln \<Rightarrow> True)"

definition is_dir :: "path \<Rightarrow> filesystem \<Rightarrow> bool" where
  "is_dir p fs =
     (case resolve fs p of Inl e \<Rightarrow> False | Inr (loc, File) \<Rightarrow> False | Inr (loc, Dir es) \<Rightarrow> True)"

text \<open>A new empty directory \<open>c\<close> at the end of the directory at \<open>loc\<close>.\<close>

fun add_child :: "node \<Rightarrow> string list \<Rightarrow> string \<Rightarrow> node"
  and add_child_in :: "(string \<times> node) list \<Rightarrow> string \<Rightarrow> string list \<Rightarrow> string \<Rightarrow> (string \<times> node) list" where
  "add_child File loc c = File"
| "add_child (Dir cs) [] c = Dir (cs @ [(c, Dir [])])"
| "add_child (Dir cs) (k # loc) c = Dir (add_child_in cs k loc c)"
| "add_child_in [] k loc c = []"
| "add_child_in ((k', v) # cs) k loc c =
     (if k' = k then (k', add_child v loc c) # cs else (k', v) # add_child_in cs k loc c)"

text \<open>
  \<open>os.mkdir(p)\<close>: the directory above must exist, the path itself must not. A path that
  ends in \<open>..\<close> or has no component names a directory that exists.
\<close>

definition os_mkdir :: "path \<Rightarrow> filesystem \<Rightarrow> os_error + filesystem" where
  "os_mkdir p fs =
     (if tail p = [] then
        (case resolve fs p of Inl e \<Rightarrow> Inl e | Inr ln \<Rightarrow> Inl FileExistsError)
      else
        (case walk (root_dir fs) (start fs p) (butlast (tail p)) of
           Inl e \<Rightarrow> Inl e
         | Inr loc \<Rightarrow>
             (case lookup (root_dir fs) loc of
                None \<Rightarrow> Inl FileNotFoundError
              | Some File \<Rightarrow> Inl NotADirectoryError
              | Some (Dir es) \<Rightarrow>
                  if last (tail p) = ''..'' then Inl FileExistsError
                  else (case lookup (root_dir fs) (loc @ [last (tail p)]) of
                          Some n \<Rightarrow> Inl FileExistsError
                        | None \<Rightarrow>
                            Inr (fs\<lparr>root_dir := add_child (root_dir fs) loc (last (tail p))\<rparr>)))))"

subsection \<open>Exceptions\<close>

text \<open>
  The exceptions of the program: the errors of the operating system,
  \<open>subprocess.CalledProcessError\<close> with its return code and command, and the
  \<open>UnicodeEncodeError\<close> of a \<open>print\<close> whose text the output stream cannot encode.
\<close>

datatype exn = OSError os_error | CalledProcessError int "string list" | UnicodeEncodeError

text \<open>
  \<open>Path.mkdir(parents, exist_ok)\<close> as pathlib implements it over \<open>os.mkdir\<close>. The result is
  the exception raised, if any, together with the filesystem as it is then.
\<close>

function mkdir :: "path \<Rightarrow> bool \<Rightarrow> bool \<Rightarrow> filesystem \<Rightarrow> (exn + unit) \<times> filesystem" where
  "mkdir p parents exist_ok fs =
     (case os_mkdir p fs of
        Inr fs' \<Rightarrow> (Inr (), fs')
      | Inl FileNotFoundError \<Rightarrow>
          if \<not> parents \<or> parent p = p then (Inl (OSError FileNotFoundError), fs)
          else (case mkdir (parent p) True True fs of
                  (Inl e, fs1) \<Rightarrow> (Inl e, fs1)
                | (Inr u, fs1) \<Rightarrow> mkdir p False exist_ok fs1)
      | Inl e \<Rightarrow>
          if \<not> exist_ok \<or> \<not> is_dir p fs then (Inl (OSError e), fs) else (Inr (), fs))"
  by pat_completeness auto
termination
  by (relation "measure (\<lambda>(p, parents, exist_ok, fs). if parents then 2 * length (tail p) + 1 else 0)")
     (auto simp: parent_def split: if_splits)

declare mkdir.simps [simp del]

subsection \<open>Running the external program\<close>

text \<open>
  What becomes of one attempt to run a command: the process exits with a return code
  (negative when a signal ended it), or it cannot be launched. The external program is a
  parameter of the model: any function from the command and the filesystem to such a
  result and the filesystem it leaves.
\<close>

datatype proc = Exited int | LaunchFailed os_error

type_synonym tool = "string list \<Rightarrow> filesystem \<Rightarrow> proc \<times> filesystem"

text \<open>
  \<open>subprocess.run(cmd, stdout=PIPE, stderr=PIPE, check=True)\<close>: with \<open>check=True\<close> a return
  code other than 0 raises \<open>CalledProcessError\<close>; an error of the launch is raised as it is.
\<close>

definition subprocess_run :: "tool \<Rightarrow> string list \<Rightarrow> filesystem \<Rightarrow> (exn + int) \<times> filesystem" where
  "subprocess_run t cmd fs =
     (case t cmd fs of
        (Exited rc, fs') \<Rightarrow> (if rc \<noteq> 0 then Inl (CalledProcessError rc cmd) else Inr rc, fs')
      | (LaunchFailed e, fs') \<Rightarrow> (Inl (OSError e), fs'))"

subsection \<open>check_ffmpeg\<close>

definition check_ffmpeg :: "tool \<Rightarrow> filesystem \<Rightarrow> (exn + bool) \<times> filesystem" where
  "check_ffmpeg t fs =
     (case subprocess_run t [''ffmpeg'', ''-version''] fs of
        (Inr rc, fs') \<Rightarrow> (Inr True, fs')
      | (Inl (CalledProcessError rc cmd), fs') \<Rightarrow> (Inr False, fs')
      | (Inl (OSError FileNotFoundError), fs') \<Rightarrow> (Inr False, fs')
      | (Inl e, fs') \<Rightarrow> (Inl e, fs'))"

subsection \<open>convert_audio\<close>

text \<open>
  The second component of the pair that \<open>convert_audio\<close> returns: the output path, or
  \<open>str(e)\<close> of the exception caught (the text that Python makes of its return code and
  command).
\<close>

datatype pyval = PathVal path | StrOfExn exn

definition convert_audio ::
  "tool \<Rightarrow> pathlike \<Rightarrow> string \<Rightarrow> string option \<Rightarrow> string \<Rightarrow> filesystem
     \<Rightarrow> (exn + bool \<times> pyval) \<times> filesystem" where
  "convert_audio t input_file output_format output_dir quality fs =
     (case (if truthy output_dir
            then mkdir (out_dir input_file output_dir) True True fs
            else (Inr (), fs)) of
        (Inl e, fs1) \<Rightarrow> (Inl e, fs1)
      | (Inr u, fs1) \<Rightarrow>
          (case subprocess_run t (convert_cmd input_file output_format output_dir quality) fs1 of
             (Inr rc, fs2) \<Rightarrow>
               (Inr (True, PathVal (output_file input_file output_format output_dir)), fs2)
           | (Inl (CalledProcessError rc cmd), fs2) \<Rightarrow>
               (Inr (False, StrOfExn (CalledProcessError rc cmd)), fs2)
           | (Inl e, fs2) \<Rightarrow> (Inl e, fs2)))"

subsection \<open>Globbing\<close>

text \<open>
  \<open>fnmatch.fnmatchcase(name, pat)\<close> for patterns of literal characters, \<open>*\<close> and \<open>?\<close> (the
  pattern of the program, \<open>*.m4a\<close>, has no bracket).
\<close>

fun fnmatch :: "string \<Rightarrow> string \<Rightarrow> bool" where
  "fnmatch [] [] = True"
| "fnmatch (c # cs) [] = False"
| "fnmatch [] (p # ps) = (p = CHR ''*'' \<and> fnmatch [] ps)"
| "fnmatch (c # cs) (p # ps) =
     (if p = CHR ''*'' then fnmatch (c # cs) ps \<or> fnmatch cs (p # ps)
      else (p = CHR ''?'' \<or> p = c) \<and> fnmatch cs ps)"

text \<open>
  The entries of a directory whose name matches, in the order of the directory; each
  result is the list of names from the directory down to the entry. A regular file has
  no entries.
\<close>

fun glob_rel :: "string \<Rightarrow> node \<Rightarrow> string list list" where
  "glob_rel pat File = []"
| "glob_rel pat (Dir cs) = map (\<lambda>k. [k]) (filter (\<lambda>k. fnmatch k pat) (map fst cs))"

text \<open>
  The recursive search visits the directory itself, then the subtree of each entry in
  turn, and lists the matching entries of every directory it visits.
\<close>

fun rglob_rel :: "string \<Rightarrow> node \<Rightarrow> string list list"
  and rglob_children :: "string \<Rightarrow> (string \<times> node) list \<Rightarrow> string list list" where
  "rglob_rel pat File = []"
| "rglob_rel pat (Dir cs) = glob_rel pat (Dir cs) @ rglob_children pat cs"
| "rglob_children pat [] = []"
| "rglob_children pat ((k, v) # cs) = map ((#) k) (rglob_rel pat v) @ rglob_children pat cs"

text \<open>\<open>list(p.glob(pat))\<close> and \<open>list(p.rglob(pat))\<close>: every result is \<open>p\<close> extended by the names found.\<close>

definition glob :: "path \<Rightarrow> string \<Rightarrow> filesystem \<Rightarrow> path list" where
  "glob p pat fs =
     (case resolve fs p of
        Inl e \<Rightarrow> []
      | Inr (loc, n) \<Rightarrow> map (\<lambda>rel. PosixPath (root p) (tail p @ rel)) (glob_rel pat n))"

definition rglob :: "path \<Rightarrow> string \<Rightarrow> filesystem \<Rightarrow> path list" where
  "rglob p pat fs =
     (case resolve fs p of
        Inl e \<Rightarrow> []
      | Inr (loc, n) \<Rightarrow> map (\<lambda>rel. PosixPath (root p) (tail p @ rel)) (rglob_rel pat n))"

subsection \<open>batch_convert\<close>

text \<open>
  What the program prints, one constructor for each \<open>print\<close> of \<open>batch_convert\<close>, with the
  values the message is formatted from.
\<close>

datatype msg =
    DirMissing string
  | NoFilesFound string
  | Found nat
  | OutputFormat string
  | QualitySetting string
  | Rule
  | Converting nat nat string
  | Succeeded pyval
  | Failed pyval
  | Finished
  | SuccessTotal nat
  | FailTotal nat

text \<open>Lines 93 to 96: the list \<open>m4a_files\<close>.\<close>

definition m4a_files :: "path \<Rightarrow> bool \<Rightarrow> filesystem \<Rightarrow> path list" where
  "m4a_files input_path recursive fs =
     (if recursive then rglob input_path ''*.m4a'' fs else glob input_path ''*.m4a'' fs)"

text \<open>
  \<open>print(...)\<close>: the message is written, or the output stream cannot encode its text and
  \<open>print\<close> raises \<open>UnicodeEncodeError\<close>, writing nothing. The text of a message holds the
  names of files, which can hold bytes that are no valid text; whether a stream encodes
  them depends on its encoding and error handler. The stream is a parameter of the model:
  the messages it can encode.
\<close>

type_synonym stream = "msg \<Rightarrow> bool"

definition print :: "stream \<Rightarrow> msg \<Rightarrow> msg list \<Rightarrow> (exn + unit) \<times> msg list" where
  "print enc m out = (if enc m then (Inr (), out @ [m]) else (Inl UnicodeEncodeError, out))"

text \<open>Several \<open>print\<close> calls in a row: the first that raises ends them.\<close>

fun prints :: "stream \<Rightarrow> msg list \<Rightarrow> msg list \<Rightarrow> (exn + unit) \<times> msg list" where
  "prints enc [] out = (Inr (), out)"
| "prints enc (m # ms) out =
     (case print enc m out of
        (Inl e, out1) \<Rightarrow> (Inl e, out1)
      | (Inr u, out1) \<Rightarrow> prints enc ms out1)"

text \<open>
  Lines 110 to 120, the loop over the files still to convert: \<open>idx\<close> is the number of the
  next file, \<open>n\<close> is \<open>len(m4a_files)\<close>, the pair holds \<open>success_count\<close> and \<open>fail_count\<close>.
  The loop has no \<open>try\<close>: an exception of \<open>print\<close> or of \<open>convert_audio\<close> is not caught and
  ends the loop.
\<close>

fun convert_loop ::
  "stream \<Rightarrow> tool \<Rightarrow> string \<Rightarrow> string option \<Rightarrow> string \<Rightarrow> nat \<Rightarrow> nat \<Rightarrow> path list
     \<Rightarrow> nat \<times> nat \<Rightarrow> filesystem \<times> msg list \<Rightarrow> (exn + nat \<times> nat) \<times> filesystem \<times> msg list" where
  "convert_loop enc t output_format output_dir quality n idx [] counts w = (Inr counts, w)"
| "convert_loop enc t output_format output_dir quality n idx (m4a_file # rest)
     (success_count, fail_count) (fs, out) =
     (case print enc (Converting idx n (name m4a_file)) out of
        (Inl e, out1) \<Rightarrow> (Inl e, fs, out1)
      | (Inr u, out1) \<Rightarrow>
          (case convert_audio t (PathObj m4a_file) output_format output_dir quality fs of
             (Inl e, fs1) \<Rightarrow> (Inl e, fs1, out1)
           | (Inr (success, result), fs1) \<Rightarrow>
               if success then
                 (case print enc (Succeeded result) out1 of
                    (Inl e, out2) \<Rightarrow> (Inl e, fs1, out2)
                  | (Inr u, out2) \<Rightarrow>
                      convert_loop enc t output_format output_dir quality n (idx + 1) rest
                        (success_count + 1, fail_count) (fs1, out2))
               else
                 (case print enc (Failed result) out1 of
                    (Inl e, out2) \<Rightarrow> (Inl e, fs1, out2)
                  | (Inr u, out2) \<Rightarrow>
                      convert_loop enc t output_format output_dir quality n (idx + 1) rest
                        (success_count, fail_count + 1) (fs1, out2))))"

definition batch_convert ::
  "stream \<Rightarrow> tool \<Rightarrow> string \<Rightarrow> string \<Rightarrow> string option \<Rightarrow> string \<Rightarrow> bool
     \<Rightarrow> filesystem \<times> msg list \<Rightarrow> (exn + unit) \<times> filesystem \<times> msg list" where
  "batch_convert enc t input_dir output_format output_dir quality recursive w =
     (case w of (fs, out) \<Rightarrow>
        let input_path = Path (Str input_dir) in
        if \<not> exists input_path fs then
          (case print enc (DirMissing input_dir) out of (r, out1) \<Rightarrow> (r, fs, out1))
        else
          let files = m4a_files input_path recursive fs in
          if files = [] then
            (case print enc (NoFilesFound input_dir) out of (r, out1) \<Rightarrow> (r, fs, out1))
          else
            (case prints enc [Found (length files), OutputFormat output_format,
                              QualitySetting quality, Rule] out of
               (Inl e, out1) \<Rightarrow> (Inl e, fs, out1)
             | (Inr u, out1) \<Rightarrow>
                 (case convert_loop enc t output_format output_dir quality (length files) 1 files
                         (0, 0) (fs, out1) of
                    (Inl e, w') \<Rightarrow> (Inl e, w')
                  | (Inr (success_count, fail_count), fs', out2) \<Rightarrow>
                      (case prints enc [Rule, Finished, SuccessTotal success_count,
                                        FailTotal fail_count] out2 of
                         (r, out3) \<Rightarrow> (r, fs', out3)))))"

subsection \<open>Well-formed paths and the entries of a tree\<close>

text \<open>
  The path objects that pathlib builds: one of the three roots, and components that are
  neither empty nor \<open>.\<close> and hold no separator. Every parsed string is one of them.
\<close>

definition valid_path :: "path \<Rightarrow> bool" where
  "valid_path p =
     ((root p = [] \<or> root p = ''/'' \<or> root p = ''//'')
      \<and> list_all (\<lambda>c. c \<noteq> [] \<and> c \<noteq> ''.'' \<and> CHR ''/'' \<notin> set c) (tail p))"

fun valid_pathlike :: "pathlike \<Rightarrow> bool" where
  "valid_pathlike (Str s) = True"
| "valid_pathlike (PathObj p) = valid_path p"

text \<open>
  \<open>is_entry d rel\<close>: the names \<open>rel\<close> lead from the directory \<open>d\<close> down to an entry of the
  tree; the length of \<open>rel\<close> is the depth of the entry, 1 for the entries of \<open>d\<close> itself.
\<close>

fun is_entry :: "node \<Rightarrow> string list \<Rightarrow> bool"
  and is_entry_in :: "(string \<times> node) list \<Rightarrow> string \<Rightarrow> string list \<Rightarrow> bool" where
  "is_entry File rel = False"
| "is_entry (Dir cs) [] = False"
| "is_entry (Dir cs) (k # rel) = is_entry_in cs k rel"
| "is_entry_in [] k rel = False"
| "is_entry_in ((k', v) # cs) k rel =
     ((k' = k \<and> (rel = [] \<or> is_entry v rel)) \<or> is_entry_in cs k rel)"

text \<open>A name has the extension \<open>.m4a\<close> when it ends with these four characters.\<close>

definition has_m4a_extension :: "string \<Rightarrow> bool" where
  "has_m4a_extension k = (drop (length k - 4) k = ''.m4a'')"

text \<open>\<open>p.parents\<close>: the parent, its parent, and so on up to the path without components.\<close>

fun ancestors :: "path \<Rightarrow> path list" where
  "ancestors p = map (\<lambda>k. PosixPath (root p) (take k (tail p))) (rev [0..<length (tail p)])"

text \<open>The kind of the node at a location: \<open>True\<close> for a directory, \<open>False\<close> for a regular file.\<close>

fun node_is_dir :: "node \<Rightarrow> bool" where
  "node_is_dir File = False"
| "node_is_dir (Dir es) = True"

definition kind_at :: "node \<Rightarrow> string list \<Rightarrow> bool option" where
  "kind_at r q = map_option node_is_dir (lookup r q)"

definition kind_in :: "(string \<times> node) list \<Rightarrow> string \<Rightarrow> string list \<Rightarrow> bool option" where
  "kind_in cs k p = map_option node_is_dir (lookup_child cs k p)"

text \<open>
  What \<open>convert_audio\<close> gives for each file of a list, the files taken in order and each
  converted on the filesystem that the conversion before it left: the pair returned or
  the exception raised. \<open>fs_after\<close> is the filesystem that the last conversion leaves.
\<close>

fun outcomes ::
  "tool \<Rightarrow> string \<Rightarrow> string option \<Rightarrow> string \<Rightarrow> path list \<Rightarrow> filesystem
     \<Rightarrow> (path \<times> (exn + bool \<times> pyval)) list" where
  "outcomes t output_format output_dir quality [] fs = []"
| "outcomes t output_format output_dir quality (f # rest) fs =
     (f, fst (convert_audio t (PathObj f) output_format output_dir quality fs))
     # outcomes t output_format output_dir quality rest
         (snd (convert_audio t (PathObj f) output_format output_dir quality fs))"

fun fs_after ::
  "tool \<Rightarrow> string \<Rightarrow> string option \<Rightarrow> string \<Rightarrow> path list \<Rightarrow> filesystem \<Rightarrow> filesystem" where
  "fs_after t output_format output_dir quality [] fs = fs"
| "fs_after t output_format output_dir quality (f # rest) fs =
     fs_after t output_format output_dir quality rest
       (snd (convert_audio t (PathObj f) output_format output_dir quality fs))"

text \<open>An outcome is returned, and then it is a success or a failure, or an exception was raised.\<close>

fun returned :: "path \<times> (exn + bool \<times> pyval) \<Rightarrow> bool" where
  "returned (f, Inl e) = False"
| "returned (f, Inr r) = True"

fun is_success :: "path \<times> (exn + bool \<times> pyval) \<Rightarrow> bool" where
  "is_success (f, Inl e) = False"
| "is_success (f, Inr (ok, v)) = ok"

fun is_failure :: "path \<times> (exn + bool \<times> pyval) \<Rightarrow> bool" where
  "is_failure (f, Inl e) = False"
| "is_failure (f, Inr (ok, v)) = (\<not> ok)"

text \<open>
  The messages of the loop for these files, numbered from \<open>idx\<close>: for each file the
  announcement, followed by the report of the success or of the failure when the
  conversion returned.
\<close>

fun reports :: "nat \<Rightarrow> nat \<Rightarrow> (path \<times> (exn + bool \<times> pyval)) list \<Rightarrow> msg list" where
  "reports n idx [] = []"
| "reports n idx ((f, Inl e) # os) = Converting idx n (name f) # reports n (idx + 1) os"
| "reports n idx ((f, Inr (ok, v)) # os) =
     Converting idx n (name f) # (if ok then Succeeded v else Failed v) # reports n (idx + 1) os"

subsection \<open>Example inputs\<close>

text \<open>
  A filesystem with the directory \<open>/music\<close> (two matching files, a text file and a
  subdirectory with a third matching file) and the working directory \<open>/home\<close>.
\<close>

definition example_fs :: filesystem where
  "example_fs =
     \<lparr>root_dir =
        Dir [(''music'',
              Dir [(''a.m4a'', File), (''b.m4a'', File),
                   (''sub'', Dir [(''c.m4a'', File)]), (''notes.txt'', File)]),
             (''home'', Dir [])],
      cwd = [''home'']\<rparr>"


text \<open>
  Two output streams: one that encodes every message, and one that cannot encode the
  announcement of a file whose name holds the byte \<open>0xE9\<close>.
\<close>

definition stream_any :: stream where
  "stream_any m = True"


text \<open>
  External programs: one that always succeeds, one that always exits with status 1, one
  that cannot be launched, one that exits with status 1 on the input \<open>../music/b.m4a\<close>
  only, and one that cannot be launched for that input only.
\<close>

definition ffmpeg_ok :: tool where
  "ffmpeg_ok cmd fs = (Exited 0, fs)"

definition ffmpeg_exit1 :: tool where
  "ffmpeg_exit1 cmd fs = (Exited 1, fs)"

definition ffmpeg_missing :: tool where
  "ffmpeg_missing cmd fs = (LaunchFailed FileNotFoundError, fs)"

definition ffmpeg_rejects_b :: tool where
  "ffmpeg_rejects_b cmd fs =
     (if take 1 (drop 2 cmd) = [''../music/b.m4a''] then Exited 1 else Exited 0, fs)"


section \<open>Properties\<close>

subsection \<open>Parsing and joining paths\<close>

lemma str_split_no_sep: "w \<in> set (str_split sep s) \<Longrightarrow> sep \<notin> set w"
  by (induction s arbitrary: w) (auto split: if_splits list.splits)

lemma str_split_single: "sep \<notin> set s \<Longrightarrow> str_split sep s = [s]"
  by (induction s) auto

lemma splitroot_root:
  "fst (splitroot s) = [] \<or> fst (splitroot s) = ''/'' \<or> fst (splitroot s) = ''//''"
proof (cases s)
  case Nil
  then show ?thesis by (simp add: splitroot_def)
next
  case (Cons a s1)
  show ?thesis
  proof (cases s1)
    case Nil
    with Cons show ?thesis by (simp add: splitroot_def)
  next
    case (Cons b s2)
    with \<open>s = a # s1\<close> show ?thesis by (auto simp: splitroot_def)
  qed
qed

lemma valid_parse_path: "valid_path (parse_path s)"
  using splitroot_root [of s]
  by (auto simp: valid_path_def parse_path_def list_all_iff split: prod.splits
           dest: str_split_no_sep)

lemma valid_Path: "valid_pathlike input_file \<Longrightarrow> valid_path (Path input_file)"
  by (cases input_file) (simp_all add: valid_parse_path)

lemma parse_path_single:
  assumes "CHR ''/'' \<notin> set key" "key \<noteq> []" "key \<noteq> ''.''"
  shows "parse_path key = PosixPath [] [key]"
proof -
  from assms have "take 1 key \<noteq> ''/''" by (cases key) auto
  then have "splitroot key = ([], key)" by (simp add: splitroot_def)
  with assms show ?thesis by (simp add: parse_path_def str_split_single)
qed

lemma joinpath_single:
  assumes "CHR ''/'' \<notin> set key" "key \<noteq> []" "key \<noteq> ''.''"
  shows "joinpath p key = PosixPath (root p) (tail p @ [key])"
  using parse_path_single [OF assms] by (simp add: joinpath_def)

lemma stem_subset: "set (stem p) \<subseteq> set (name p)"
  by (auto simp: stem_def Let_def dest: in_set_takeD)

lemma name_no_sep: "valid_path p \<Longrightarrow> CHR ''/'' \<notin> set (name p)"
  by (auto simp: valid_path_def name_def list_all_iff)

lemma stem_no_sep: "valid_path p \<Longrightarrow> CHR ''/'' \<notin> set (stem p)"
  using stem_subset name_no_sep by blast

subsection \<open>The command line\<close>

text \<open>
  Claim C3. For an mp3 request the command selects the encoder \<open>libmp3lame\<close> with a
  bitrate fixed by the quality alone: 320k for high, 192k for medium, 128k for low,
  whatever the input file and the output directory are.
\<close>

theorem mp3_bitrate_by_quality:
  "convert_cmd input_file ''mp3'' output_dir ''high'' =
     [''ffmpeg'', ''-i'', str_path (Path input_file),
      ''-codec:a'', ''libmp3lame'', ''-b:a'', ''320k'',
      ''-y'', str_path (output_file input_file ''mp3'' output_dir)]
   \<and> convert_cmd input_file ''mp3'' output_dir ''medium'' =
     [''ffmpeg'', ''-i'', str_path (Path input_file),
      ''-codec:a'', ''libmp3lame'', ''-b:a'', ''192k'',
      ''-y'', str_path (output_file input_file ''mp3'' output_dir)]
   \<and> convert_cmd input_file ''mp3'' output_dir ''low'' =
     [''ffmpeg'', ''-i'', str_path (Path input_file),
      ''-codec:a'', ''libmp3lame'', ''-b:a'', ''128k'',
      ''-y'', str_path (output_file input_file ''mp3'' output_dir)]"
  by (simp add: convert_cmd_def codec_args_def)

theorem mp3_bitrate_by_quality_witness:
  "convert_cmd (Str ''music/song.m4a'') ''mp3'' None ''high'' =
     [''ffmpeg'', ''-i'', ''music/song.m4a'', ''-codec:a'', ''libmp3lame'', ''-b:a'', ''320k'',
      ''-y'', ''music/song.mp3'']
   \<and> convert_cmd (Str ''music/song.m4a'') ''mp3'' None ''medium'' =
     [''ffmpeg'', ''-i'', ''music/song.m4a'', ''-codec:a'', ''libmp3lame'', ''-b:a'', ''192k'',
      ''-y'', ''music/song.mp3'']
   \<and> convert_cmd (Str ''music/song.m4a'') ''mp3'' None ''low'' =
     [''ffmpeg'', ''-i'', ''music/song.m4a'', ''-codec:a'', ''libmp3lame'', ''-b:a'', ''128k'',
      ''-y'', ''music/song.mp3'']"
proof -
  have i: "str_path (Path (Str ''music/song.m4a'')) = ''music/song.m4a''"
    by code_simp
  have out: "str_path (output_file (Str ''music/song.m4a'') ''mp3'' None) = ''music/song.mp3''"
    by code_simp
  show ?thesis
    using mp3_bitrate_by_quality [of "Str ''music/song.m4a''" None] by (simp only: i out)
qed

text \<open>
  Claim C6. For a wav request the command asks for the encoder \<open>pcm_s16le\<close> (signed 16-bit
  little-endian PCM) and is the same list for every quality; the whole run of
  \<open>convert_audio\<close>, its result and the filesystem it leaves, is the same for any two
  requests that differ in the quality only.
\<close>

theorem wav_ignores_quality:
  "convert_cmd input_file ''wav'' output_dir quality =
     [''ffmpeg'', ''-i'', str_path (Path input_file), ''-codec:a'', ''pcm_s16le'',
      ''-y'', str_path (output_file input_file ''wav'' output_dir)]
   \<and> convert_cmd input_file ''wav'' output_dir quality =
       convert_cmd input_file ''wav'' output_dir quality'
   \<and> convert_audio t input_file ''wav'' output_dir quality fs =
       convert_audio t input_file ''wav'' output_dir quality' fs"
proof -
  have args: "codec_args ''wav'' q = [''-codec:a'', ''pcm_s16le'']" for q
    by (simp add: codec_args_def)
  have cmd: "convert_cmd input_file ''wav'' output_dir q =
     [''ffmpeg'', ''-i'', str_path (Path input_file), ''-codec:a'', ''pcm_s16le'',
      ''-y'', str_path (output_file input_file ''wav'' output_dir)]" for q
    by (simp add: convert_cmd_def args)
  show ?thesis
    by (simp only: convert_audio_def cmd)
qed

theorem wav_ignores_quality_witness:
  "convert_cmd (Str ''music/song.m4a'') ''wav'' (Some ''out'') ''high'' =
     [''ffmpeg'', ''-i'', ''music/song.m4a'', ''-codec:a'', ''pcm_s16le'', ''-y'', ''out/song.wav'']
   \<and> convert_cmd (Str ''music/song.m4a'') ''wav'' (Some ''out'') ''high'' =
       convert_cmd (Str ''music/song.m4a'') ''wav'' (Some ''out'') ''low''
   \<and> convert_audio ffmpeg_ok (Str ''music/song.m4a'') ''wav'' (Some ''out'') ''high'' example_fs =
       convert_audio ffmpeg_ok (Str ''music/song.m4a'') ''wav'' (Some ''out'') ''low'' example_fs"
proof -
  have i: "str_path (parse_path ''music/song.m4a'') = ''music/song.m4a''"
    by code_simp
  have out: "str_path (output_file (Str ''music/song.m4a'') ''wav'' (Some ''out'')) = ''out/song.wav''"
    by code_simp
  show ?thesis
    using wav_ignores_quality [of "Str ''music/song.m4a''" "Some ''out''" "''high''" "''low''"
        ffmpeg_ok example_fs, unfolded Path.simps i out]
    by blast
qed

text \<open>
  Claim C9. For an mp3 request whose quality is neither \<open>high\<close> nor \<open>medium\<close>, whatever
  string it is, the command is the one built for \<open>low\<close>, with the bitrate 128k, and the
  whole run of \<open>convert_audio\<close> is the run for \<open>low\<close>: the quality is not validated.
\<close>

theorem mp3_unknown_quality_is_low:
  assumes "quality \<noteq> ''high''" and "quality \<noteq> ''medium''"
  shows "convert_cmd input_file ''mp3'' output_dir quality =
           [''ffmpeg'', ''-i'', str_path (Path input_file),
            ''-codec:a'', ''libmp3lame'', ''-b:a'', ''128k'',
            ''-y'', str_path (output_file input_file ''mp3'' output_dir)]
         \<and> convert_cmd input_file ''mp3'' output_dir quality =
             convert_cmd input_file ''mp3'' output_dir ''low''
         \<and> convert_audio t input_file ''mp3'' output_dir quality fs =
             convert_audio t input_file ''mp3'' output_dir ''low'' fs"
proof -
  have args: "codec_args ''mp3'' quality = [''-codec:a'', ''libmp3lame'', ''-b:a'', ''128k'']"
    using assms by (simp add: codec_args_def)
  have low: "codec_args ''mp3'' ''low'' = [''-codec:a'', ''libmp3lame'', ''-b:a'', ''128k'']"
    by (simp add: codec_args_def)
  have cmd: "convert_cmd input_file ''mp3'' output_dir quality =
           [''ffmpeg'', ''-i'', str_path (Path input_file),
            ''-codec:a'', ''libmp3lame'', ''-b:a'', ''128k'',
            ''-y'', str_path (output_file input_file ''mp3'' output_dir)]"
    by (simp add: convert_cmd_def args)
  have cmd_low: "convert_cmd input_file ''mp3'' output_dir quality =
             convert_cmd input_file ''mp3'' output_dir ''low''"
    by (simp add: convert_cmd_def args low)
  have "convert_audio t input_file ''mp3'' output_dir quality fs =
             convert_audio t input_file ''mp3'' output_dir ''low'' fs"
    by (simp only: convert_audio_def cmd_low)
  with cmd cmd_low show ?thesis by blast
qed

theorem mp3_unknown_quality_is_low_witness:
  "''best'' \<noteq> ''high'' \<and> ''best'' \<noteq> ''medium''
   \<and> convert_cmd (Str ''music/song.m4a'') ''mp3'' None ''best'' =
       [''ffmpeg'', ''-i'', ''music/song.m4a'', ''-codec:a'', ''libmp3lame'', ''-b:a'', ''128k'',
        ''-y'', ''music/song.mp3'']
   \<and> convert_cmd (Str ''music/song.m4a'') ''mp3'' None ''best'' =
       convert_cmd (Str ''music/song.m4a'') ''mp3'' None ''low''
   \<and> convert_audio ffmpeg_ok (Str ''music/song.m4a'') ''mp3'' None ''best'' example_fs =
       convert_audio ffmpeg_ok (Str ''music/song.m4a'') ''mp3'' None ''low'' example_fs"
proof -
  have h1: "''best'' \<noteq> ''high''" and h2: "''best'' \<noteq> ''medium''" by simp_all
  have i: "str_path (parse_path ''music/song.m4a'') = ''music/song.m4a''"
    by code_simp
  have out: "str_path (output_file (Str ''music/song.m4a'') ''mp3'' None) = ''music/song.mp3''"
    by code_simp
  show ?thesis
    using h1 h2 mp3_unknown_quality_is_low [OF h1 h2, of "Str ''music/song.m4a''" None
        ffmpeg_ok example_fs, unfolded Path.simps i out]
    by blast
qed

text \<open>
  Claim C10, as amended. For an output format other than \<open>mp3\<close> and \<open>wav\<close> the command has
  no codec argument at all: it is \<open>ffmpeg -i <input> -y <output>\<close>, where the output is the
  output directory joined with the text made of the stem of the input, a dot and the
  format string as it is given; the format is not validated. The join parses that
  text as a path. When the input path is well-formed, the format holds no separator and
  format and stem are not both empty, the text is the name of the output file, so the
  format string follows the dot unchanged. (A format that holds a separator is split
  into components and normalised; the theorem says nothing more of it.)
\<close>

theorem other_format_no_codec_args:
  assumes "output_format \<noteq> ''mp3''" and "output_format \<noteq> ''wav''"
  shows "convert_cmd input_file output_format output_dir quality =
           [''ffmpeg'', ''-i'', str_path (Path input_file), ''-y'',
            str_path (joinpath (out_dir input_file output_dir)
                        (stem (Path input_file) @ ''.'' @ output_format))]
         \<and> (valid_pathlike input_file \<and> CHR ''/'' \<notin> set output_format
              \<and> (output_format \<noteq> [] \<or> stem (Path input_file) \<noteq> []) \<longrightarrow>
            name (output_file input_file output_format output_dir) =
              stem (Path input_file) @ ''.'' @ output_format)"
proof -
  have cmd: "convert_cmd input_file output_format output_dir quality =
           [''ffmpeg'', ''-i'', str_path (Path input_file), ''-y'',
            str_path (joinpath (out_dir input_file output_dir)
                        (stem (Path input_file) @ ''.'' @ output_format))]"
    using assms by (simp add: convert_cmd_def codec_args_def output_file_def)
  have nm: "name (output_file input_file output_format output_dir) =
              stem (Path input_file) @ ''.'' @ output_format"
    if v: "valid_pathlike input_file" and f: "CHR ''/'' \<notin> set output_format"
      and ne: "output_format \<noteq> [] \<or> stem (Path input_file) \<noteq> []"
  proof -
    let ?key = "stem (Path input_file) @ ''.'' @ output_format"
    have "CHR ''/'' \<notin> set ?key"
      using stem_no_sep [OF valid_Path [OF v]] f by simp
    moreover have "?key \<noteq> []" by simp
    moreover have "?key \<noteq> ''.''"
      using ne by (cases "stem (Path input_file)") auto
    ultimately have "joinpath (out_dir input_file output_dir) ?key =
        PosixPath (root (out_dir input_file output_dir))
          (tail (out_dir input_file output_dir) @ [?key])"
      by (rule joinpath_single)
    then show ?thesis by (simp add: output_file_def name_def)
  qed
  from cmd nm show ?thesis by blast
qed

theorem other_format_no_codec_args_witness:
  "''ogg'' \<noteq> ''mp3'' \<and> ''ogg'' \<noteq> ''wav''
   \<and> convert_cmd (Str ''/music/song.m4a'') ''ogg'' None ''high'' =
       [''ffmpeg'', ''-i'', ''/music/song.m4a'', ''-y'', ''/music/song.ogg'']
   \<and> name (output_file (Str ''/music/song.m4a'') ''ogg'' None) = ''song.ogg''"
proof -
  have h1: "''ogg'' \<noteq> ''mp3''" and h2: "''ogg'' \<noteq> ''wav''" by simp_all
  have i: "str_path (parse_path ''/music/song.m4a'') = ''/music/song.m4a''"
    by code_simp
  have st: "stem (parse_path ''/music/song.m4a'') = ''song''"
    by code_simp
  have out: "str_path (joinpath (out_dir (Str ''/music/song.m4a'') None) ''song.ogg'') =
      ''/music/song.ogg''"
    by code_simp
  show ?thesis
    using h1 h2 other_format_no_codec_args [OF h1 h2, of "Str ''/music/song.m4a''" None "''high''"]
    by (simp add: i st out)
qed

text \<open>
  The claim as it was stated fails for a format that holds a separator, and for the
  empty format with an input that has no name: the format \<open>ogg/\<close> gives the output
  \<open>music/song.ogg\<close>, the format \<open>a//b\<close> gives \<open>music/song.a/b\<close>, a file named \<open>b\<close> in the
  directory \<open>song.a\<close>, and the empty format with the input \<open>/\<close> gives the output \<open>/\<close>. In
  none of them does the format string follow the dot of the output file unchanged.
\<close>

theorem other_format_not_verbatim_counterexample:
  "''ogg/'' \<noteq> ''mp3'' \<and> ''ogg/'' \<noteq> ''wav''
   \<and> convert_cmd (Str ''music/song.m4a'') ''ogg/'' None ''high'' =
       [''ffmpeg'', ''-i'', ''music/song.m4a'', ''-y'', ''music/song.ogg'']
   \<and> name (output_file (Str ''music/song.m4a'') ''ogg/'' None) = ''song.ogg''
   \<and> convert_cmd (Str ''music/song.m4a'') ''a//b'' None ''high'' =
       [''ffmpeg'', ''-i'', ''music/song.m4a'', ''-y'', ''music/song.a/b'']
   \<and> name (output_file (Str ''music/song.m4a'') ''a//b'' None) = ''b''
   \<and> convert_cmd (Str ''/'') [] None ''high'' = [''ffmpeg'', ''-i'', ''/'', ''-y'', ''/'']"
  by code_simp

subsection \<open>The result of one run\<close>

text \<open>
  Claim C4, as amended. The preflight check goes by the exit status of the version probe:
  \<open>check_ffmpeg\<close> answers \<open>True\<close> exactly when the probe is launched and exits with
  status 0. A probe that exits with another status, or an executable that is not found,
  gives \<open>False\<close>; any other error of the launch is raised.
\<close>

theorem check_ffmpeg_by_exit_status:
  "fst (check_ffmpeg t fs) =
     (case fst (t [''ffmpeg'', ''-version''] fs) of
        Exited rc \<Rightarrow> Inr (rc = 0)
      | LaunchFailed FileNotFoundError \<Rightarrow> Inr False
      | LaunchFailed e \<Rightarrow> Inl (OSError e))"
  by (cases "t [''ffmpeg'', ''-version''] fs")
     (auto simp: check_ffmpeg_def subprocess_run_def split: proc.splits os_error.splits)

theorem check_ffmpeg_by_exit_status_witness:
  "fst (check_ffmpeg ffmpeg_ok example_fs) = Inr True
   \<and> fst (check_ffmpeg ffmpeg_missing example_fs) = Inr False"
  using check_ffmpeg_by_exit_status [of ffmpeg_ok example_fs]
    check_ffmpeg_by_exit_status [of ffmpeg_missing example_fs]
  by (simp add: ffmpeg_ok_def ffmpeg_missing_def)

text \<open>
  The claim as it was stated fails: a probe that is launched and exits, with status 1,
  makes the check answer \<open>False\<close>.
\<close>

theorem check_ffmpeg_nonzero_exit_counterexample:
  "fst (ffmpeg_exit1 [''ffmpeg'', ''-version''] example_fs) = Exited 1
   \<and> fst (check_ffmpeg ffmpeg_exit1 example_fs) = Inr False"
  by (simp add: check_ffmpeg_def subprocess_run_def ffmpeg_exit1_def)

text \<open>
  Claim C1, as amended. Once the output directory is there (no directory was asked for,
  or \<open>mkdir\<close> raised nothing), \<open>convert_audio\<close> maps what becomes of the external
  program as follows: exit status 0 gives \<open>(True, output_file)\<close>; any other exit status
  gives \<open>(False, str(e))\<close> for the \<open>CalledProcessError\<close> made of that status and the
  command; a failure to launch the program is not caught and leaves \<open>convert_audio\<close> as
  an exception.
\<close>

theorem convert_audio_result:
  assumes "(if truthy output_dir then mkdir (out_dir input_file output_dir) True True fs
            else (Inr (), fs)) = (Inr (), fs1)"
  shows "fst (convert_audio t input_file output_format output_dir quality fs) =
     (case fst (t (convert_cmd input_file output_format output_dir quality) fs1) of
        Exited rc \<Rightarrow>
          if rc = 0 then Inr (True, PathVal (output_file input_file output_format output_dir))
          else Inr (False, StrOfExn (CalledProcessError rc
                      (convert_cmd input_file output_format output_dir quality)))
      | LaunchFailed e \<Rightarrow> Inl (OSError e))"
proof (cases "t (convert_cmd input_file output_format output_dir quality) fs1")
  case (Pair r fs2)
  show ?thesis
    unfolding convert_audio_def assms
    using Pair by (cases r) (simp_all add: subprocess_run_def)
qed

theorem convert_audio_result_witness:
  "(if truthy None then mkdir (out_dir (Str ''/music/b.m4a'') None) True True example_fs
    else (Inr (), example_fs)) = (Inr (), example_fs)
   \<and> fst (convert_audio ffmpeg_ok (Str ''/music/b.m4a'') ''mp3'' None ''high'' example_fs) =
       Inr (True, PathVal (PosixPath ''/'' [''music'', ''b.mp3'']))
   \<and> fst (convert_audio ffmpeg_exit1 (Str ''/music/b.m4a'') ''mp3'' None ''high'' example_fs) =
       Inr (False, StrOfExn (CalledProcessError 1
         [''ffmpeg'', ''-i'', ''/music/b.m4a'', ''-codec:a'', ''libmp3lame'', ''-b:a'', ''320k'',
          ''-y'', ''/music/b.mp3'']))"
proof -
  have h: "(if truthy None then mkdir (out_dir (Str ''/music/b.m4a'') None) True True example_fs
    else (Inr (), example_fs)) = (Inr (), example_fs)"
    by simp
  have out: "output_file (Str ''/music/b.m4a'') ''mp3'' None = PosixPath ''/'' [''music'', ''b.mp3'']"
    by code_simp
  have cmd: "convert_cmd (Str ''/music/b.m4a'') ''mp3'' None ''high'' =
     [''ffmpeg'', ''-i'', ''/music/b.m4a'', ''-codec:a'', ''libmp3lame'', ''-b:a'', ''320k'',
          ''-y'', ''/music/b.mp3'']"
    by code_simp
  show ?thesis
    using h convert_audio_result [OF h, of ffmpeg_ok "''mp3''" "''high''"]
      convert_audio_result [OF h, of ffmpeg_exit1 "''mp3''" "''high''"]
    by (simp add: out cmd ffmpeg_ok_def ffmpeg_exit1_def)
qed

text \<open>
  The claim as it was stated fails where it says that a failure to launch is returned as
  a failure value: with an executable that is not found, \<open>convert_audio\<close> returns no pair
  at all, the \<open>FileNotFoundError\<close> leaves it as an exception.
\<close>

theorem convert_audio_launch_failure_counterexample:
  "fst (ffmpeg_missing (convert_cmd (Str ''/music/b.m4a'') ''mp3'' None ''high'') example_fs) =
     LaunchFailed FileNotFoundError
   \<and> fst (convert_audio ffmpeg_missing (Str ''/music/b.m4a'') ''mp3'' None ''high'' example_fs) =
     Inl (OSError FileNotFoundError)"
  by (simp add: convert_audio_def subprocess_run_def ffmpeg_missing_def)

subsection \<open>The filesystem: looking up, walking, creating directories\<close>

lemma lookup_Nil [simp]: "lookup n [] = Some n"
  by (cases n) simp_all

lemma kind_simps [simp]:
  "kind_at n [] = Some (node_is_dir n)"
  "kind_at File (c # p) = None"
  "kind_at (Dir cs) (c # p) = kind_in cs c p"
  "kind_in [] c p = None"
  "kind_in ((k, v) # cs) c p = (if k = c then kind_at v p else kind_in cs c p)"
  by (simp_all add: kind_at_def kind_in_def)

lemma kind_at_Some_True: "kind_at r q = Some True \<longleftrightarrow> (\<exists>es. lookup r q = Some (Dir es))"
proof (cases "lookup r q")
  case None
  then show ?thesis by (simp add: kind_at_def)
next
  case (Some n)
  then show ?thesis by (cases n) (simp_all add: kind_at_def)
qed

lemma kind_at_None: "kind_at r q = None \<longleftrightarrow> lookup r q = None"
  by (simp add: kind_at_def)

lemma kind_in_append:
  "kind_in (cs @ ds) k p = (if k \<in> fst ` set cs then kind_in cs k p else kind_in ds k p)"
proof (induction cs)
  case Nil
  then show ?case by simp
next
  case (Cons a cs)
  obtain k1 v where a: "a = (k1, v)" by (cases a)
  show ?case unfolding a using Cons by (auto simp: image_iff)
qed

lemma lookup_child_append:
  "lookup_child (cs @ ds) k p =
     (if k \<in> fst ` set cs then lookup_child cs k p else lookup_child ds k p)"
proof (induction cs)
  case Nil
  then show ?case by simp
next
  case (Cons a cs)
  obtain k1 v where a: "a = (k1, v)" by (cases a)
  show ?case unfolding a using Cons by (auto simp: image_iff)
qed

lemma kind_in_Some_key: "kind_in cs k p = Some b \<Longrightarrow> k \<in> fst ` set cs"
  by (induction cs) (auto split: if_splits)

lemma kind_in_Nil_None: "kind_in cs k [] = None \<longleftrightarrow> k \<notin> fst ` set cs"
proof (induction cs)
  case Nil
  then show ?case by simp
next
  case (Cons a cs)
  obtain k1 v where a: "a = (k1, v)" by (cases a)
  show ?case unfolding a using Cons by (auto simp: image_iff)
qed

text \<open>A new directory changes the kind of no node that was there.\<close>

lemma add_child_kind:
  "kind_at r q = Some b \<Longrightarrow> kind_at (add_child r loc c) q = Some b"
  "kind_in cs k' p = Some b \<Longrightarrow> kind_in (add_child_in cs k loc c) k' p = Some b"
proof (induction r loc c and cs k loc c arbitrary: q b and k' p b
       rule: add_child_add_child_in.induct)
  case (1 loc c)
  then show ?case by simp
next
  case (2 cs c)
  then show ?case
    by (cases q) (auto simp: kind_in_append dest: kind_in_Some_key)
next
  case (3 cs k loc c)
  then show ?case by (cases q) auto
next
  case (4 k loc c)
  then show ?case by simp
next
  case (5 k1 v cs k loc c)
  then show ?case by (auto split: if_splits)
qed

text \<open>The new directory is found where it was put, and it is empty.\<close>

lemma add_child_new:
  "kind_at r loc = Some True \<Longrightarrow> kind_at r (loc @ [c]) = None \<Longrightarrow>
     lookup (add_child r loc c) (loc @ [c]) = Some (Dir [])"
  "kind_in cs k loc = Some True \<Longrightarrow> kind_in cs k (loc @ [c]) = None \<Longrightarrow>
     lookup_child (add_child_in cs k loc c) k (loc @ [c]) = Some (Dir [])"
proof (induction r loc c and cs k loc c rule: add_child_add_child_in.induct)
  case (1 loc c)
  then show ?case by (cases loc) simp_all
next
  case (2 cs c)
  then show ?case
    by (simp add: lookup_child_append kind_in_Nil_None)
next
  case (3 cs k loc c)
  then show ?case by simp
next
  case (4 k loc c)
  then show ?case by simp
next
  case (5 k1 v cs k loc c)
  then show ?case by (auto split: if_splits)
qed

text \<open>The walk, read through the kinds of the nodes it meets.\<close>

lemma walk_Cons_kind:
  "walk r cur (c # cs) =
     (case kind_at r cur of
        None \<Rightarrow> Inl FileNotFoundError
      | Some False \<Rightarrow> Inl NotADirectoryError
      | Some True \<Rightarrow>
          if c = ''..'' then walk r (butlast cur) cs
          else (case kind_at r (cur @ [c]) of
                  None \<Rightarrow> Inl FileNotFoundError
                | Some b \<Rightarrow> walk r (cur @ [c]) cs))"
proof (cases "lookup r cur")
  case None
  then show ?thesis by (simp add: kind_at_def)
next
  case (Some n)
  then show ?thesis
    by (cases n; cases "lookup r (cur @ [c])") (simp_all add: kind_at_def)
qed

declare walk.simps(2) [simp del]

lemma walk_Cons_InrD: "walk r cur (c # cs) = Inr l \<Longrightarrow> kind_at r cur = Some True"
  by (auto simp: walk_Cons_kind split: option.splits bool.splits)

lemma walk_append:
  "walk r cur (xs @ ys) = (case walk r cur xs of Inl e \<Rightarrow> Inl e | Inr l \<Rightarrow> walk r l ys)"
proof (induction xs arbitrary: cur)
  case Nil
  then show ?case by simp
next
  case (Cons c xs)
  show ?case
    unfolding append_Cons walk_Cons_kind
    by (simp add: Cons.IH split: option.splits bool.splits)
qed

text \<open>A walk that succeeds still succeeds, and ends at the same place, in a tree that keeps every node.\<close>

lemma walk_mono:
  assumes "\<And>q b. kind_at r q = Some b \<Longrightarrow> kind_at r' q = Some b"
  shows "walk r cur cs = Inr l \<Longrightarrow> walk r' cur cs = Inr l"
proof (induction cs arbitrary: cur)
  case Nil
  then show ?case by simp
next
  case (Cons c cs)
  from Cons.prems have k: "kind_at r cur = Some True"
    by (rule walk_Cons_InrD)
  then have k': "kind_at r' cur = Some True" by (rule assms)
  show ?case
  proof (cases "c = ''..''")
    case True
    with Cons k k' show ?thesis by (simp add: walk_Cons_kind)
  next
    case False
    with Cons.prems k obtain b2 where k2: "kind_at r (cur @ [c]) = Some b2"
      by (cases "kind_at r (cur @ [c])") (simp_all add: walk_Cons_kind)
    then have "kind_at r' (cur @ [c]) = Some b2" by (rule assms)
    with Cons False k k' k2 show ?thesis by (simp add: walk_Cons_kind)
  qed
qed

lemma is_dir_iff:
  "is_dir p fs \<longleftrightarrow>
     (\<exists>loc. walk (root_dir fs) (start fs p) (tail p) = Inr loc
            \<and> kind_at (root_dir fs) loc = Some True)"
  by (auto simp: is_dir_def resolve_def kind_at_Some_True
           split: sum.splits option.splits node.splits)

lemma is_dir_mono:
  assumes "\<And>q b. kind_at (root_dir fs) q = Some b \<Longrightarrow> kind_at (root_dir fs') q = Some b"
    and "cwd fs' = cwd fs"
    and "is_dir q fs"
  shows "is_dir q fs'"
proof -
  from \<open>is_dir q fs\<close> obtain loc where
    w: "walk (root_dir fs) (start fs q) (tail q) = Inr loc"
    and k: "kind_at (root_dir fs) loc = Some True"
    by (auto simp: is_dir_iff)
  have s: "start fs' q = start fs q" using assms(2) by (simp add: start_def)
  from walk_mono [where r = "root_dir fs" and r' = "root_dir fs'", OF assms(1) w]
  have "walk (root_dir fs') (start fs' q) (tail q) = Inr loc" by (simp add: s)
  moreover from k have "kind_at (root_dir fs') loc = Some True" by (rule assms(1))
  ultimately show ?thesis by (auto simp: is_dir_iff)
qed

text \<open>A directory has directories above it: every ancestor of its path is one.\<close>

lemma is_dir_ancestors:
  assumes "is_dir p fs" and "q \<in> set (ancestors p)"
  shows "is_dir q fs"
proof -
  from assms(2) obtain k where k: "k < length (tail p)"
    and q: "q = PosixPath (root p) (take k (tail p))"
    by auto
  from assms(1) obtain loc where
    w: "walk (root_dir fs) (start fs p) (tail p) = Inr loc"
    by (auto simp: is_dir_iff)
  with walk_append [of "root_dir fs" "start fs p" "take k (tail p)" "drop k (tail p)"]
  obtain l where w1: "walk (root_dir fs) (start fs p) (take k (tail p)) = Inr l"
    and w2: "walk (root_dir fs) l (drop k (tail p)) = Inr loc"
    by (auto split: sum.splits)
  from k obtain c cs where "drop k (tail p) = c # cs"
    by (cases "drop k (tail p)") auto
  with w2 have "kind_at (root_dir fs) l = Some True"
    by (auto dest: walk_Cons_InrD)
  moreover have "start fs q = start fs p" by (simp add: q start_def)
  ultimately show ?thesis using w1 by (auto simp: is_dir_iff q)
qed

text \<open>When \<open>os.mkdir\<close> succeeds: where the new directory is, and what the new tree is.\<close>

lemma os_mkdir_InrD:
  assumes "os_mkdir p fs = Inr fs'"
  obtains loc where "tail p \<noteq> []"
    and "walk (root_dir fs) (start fs p) (butlast (tail p)) = Inr loc"
    and "kind_at (root_dir fs) loc = Some True"
    and "last (tail p) \<noteq> ''..''"
    and "kind_at (root_dir fs) (loc @ [last (tail p)]) = None"
    and "fs' = fs\<lparr>root_dir := add_child (root_dir fs) loc (last (tail p))\<rparr>"
proof -
  from assms have t: "tail p \<noteq> []"
    by (auto simp: os_mkdir_def split: sum.splits)
  from assms t obtain loc where w: "walk (root_dir fs) (start fs p) (butlast (tail p)) = Inr loc"
    by (auto simp: os_mkdir_def split: sum.splits)
  from assms t w obtain es where d: "lookup (root_dir fs) loc = Some (Dir es)"
    by (auto simp: os_mkdir_def split: option.splits node.splits)
  from assms t w d have l: "last (tail p) \<noteq> ''..''"
    by (auto simp: os_mkdir_def split: if_splits)
  from assms t w d l have n: "lookup (root_dir fs) (loc @ [last (tail p)]) = None"
    by (auto simp: os_mkdir_def split: option.splits)
  from assms t w d l n have "fs' = fs\<lparr>root_dir := add_child (root_dir fs) loc (last (tail p))\<rparr>"
    by (simp add: os_mkdir_def)
  with t w d l n that show thesis
    by (simp add: kind_at_Some_True kind_at_None)
qed

lemma os_mkdir_is_dir:
  assumes "os_mkdir p fs = Inr fs'"
  shows "is_dir p fs'" and "is_dir q fs \<Longrightarrow> is_dir q fs'"
proof -
  from assms obtain loc where t: "tail p \<noteq> []"
    and w: "walk (root_dir fs) (start fs p) (butlast (tail p)) = Inr loc"
    and d: "kind_at (root_dir fs) loc = Some True"
    and l: "last (tail p) \<noteq> ''..''"
    and n: "kind_at (root_dir fs) (loc @ [last (tail p)]) = None"
    and fs': "fs' = fs\<lparr>root_dir := add_child (root_dir fs) loc (last (tail p))\<rparr>"
    by (rule os_mkdir_InrD)
  let ?c = "last (tail p)"
  let ?r' = "add_child (root_dir fs) loc ?c"
  have mono: "\<And>q b. kind_at (root_dir fs) q = Some b \<Longrightarrow> kind_at (root_dir fs') q = Some b"
    by (simp add: fs' add_child_kind(1))
  have cwd: "cwd fs' = cwd fs" by (simp add: fs')
  have new: "lookup ?r' (loc @ [?c]) = Some (Dir [])"
    using d n by (rule add_child_new(1))
  have w': "walk ?r' (start fs p) (butlast (tail p)) = Inr loc"
    using walk_mono [where r = "root_dir fs" and r' = ?r', OF add_child_kind(1) w] .
  have d': "kind_at ?r' loc = Some True"
    using d by (rule add_child_kind(1))
  have new': "kind_at ?r' (loc @ [?c]) = Some True"
    using new by (simp add: kind_at_def)
  have "walk ?r' loc [?c] = Inr (loc @ [?c])"
    using l by (simp add: walk_Cons_kind d' new')
  with w' have "walk ?r' (start fs p) (butlast (tail p) @ [?c]) = Inr (loc @ [?c])"
    by (simp add: walk_append)
  with t have "walk ?r' (start fs p) (tail p) = Inr (loc @ [?c])"
    by simp
  moreover have "start fs' p = start fs p" by (simp add: fs' start_def)
  moreover have "root_dir fs' = ?r'" by (simp add: fs')
  ultimately show "is_dir p fs'"
    using new' by (auto simp: is_dir_iff)
  show "is_dir q fs \<Longrightarrow> is_dir q fs'"
    using mono cwd by (rule is_dir_mono)
qed

text \<open>
  When \<open>mkdir\<close> returns without an exception, the path is a directory, and every
  directory that was there still is.
\<close>

lemma mkdir_is_dir:
  "mkdir p par exist_ok fs = (Inr u, fs') \<Longrightarrow>
     is_dir p fs' \<and> (\<forall>q. is_dir q fs \<longrightarrow> is_dir q fs')"
proof (induction p par exist_ok fs arbitrary: u fs' rule: mkdir.induct)
  case (1 p par exist_ok fs)
  show ?case
  proof (cases "os_mkdir p fs")
    case (Inr fs1)
    with "1.prems" have "fs' = fs1" by (simp add: mkdir.simps)
    with Inr show ?thesis using os_mkdir_is_dir by blast
  next
    case (Inl e)
    show ?thesis
    proof (cases "e = FileNotFoundError")
      case True
      with Inl "1.prems" have np: "\<not> (\<not> par \<or> parent p = p)"
        by (auto simp: mkdir.simps split: if_splits)
      with Inl True "1.prems" obtain u1 fs1 where
        m1: "mkdir (parent p) True True fs = (Inr u1, fs1)"
        and m2: "mkdir p False exist_ok fs1 = (Inr u, fs')"
        by (cases "mkdir (parent p) True True fs")
           (auto simp: mkdir.simps [of p] split: sum.splits)
      from "1.IH"(1) [OF Inl True np m1] have a: "\<forall>q. is_dir q fs \<longrightarrow> is_dir q fs1"
        by blast
      from "1.IH"(2) [OF Inl True np _ _ m2] m1
      have b: "is_dir p fs' \<and> (\<forall>q. is_dir q fs1 \<longrightarrow> is_dir q fs')"
        by simp
      from a b show ?thesis by blast
    next
      case False
      with Inl "1.prems" have "is_dir p fs \<and> fs' = fs"
        by (cases e) (auto simp: mkdir.simps split: if_splits)
      then show ?thesis by blast
    qed
  qed
qed

text \<open>
  Claim C8. For a request for mp3 or wav on a well-formed input path: the name of the
  output file is the stem of the input (its name without the last extension, as pathlib
  has it: a name whose only dot is its first character has no extension), a dot and the
  format; the output file lies in \<open>out_dir\<close>, which is the parent directory of the
  input when no output directory is set (\<open>None\<close>, or the empty string, which Python
  takes as false) and the given directory \<open>d\<close> when one is set; the command always ends
  with \<open>-y\<close> and the output file. When a directory is set, \<open>mkdir\<close> with \<open>parents\<close> and
  \<open>exist_ok\<close> runs first: if it raises, that exception leaves \<open>convert_audio\<close>;
  otherwise the directory and all its ancestors are directories of the filesystem on
  which the external program is then run.
\<close>

theorem output_path_resolution:
  assumes "valid_pathlike input_file"
    and "output_format = ''mp3'' \<or> output_format = ''wav''"
  shows
    "name (output_file input_file output_format output_dir) =
       stem (Path input_file) @ ''.'' @ output_format
     \<and> parent (output_file input_file output_format output_dir) = out_dir input_file output_dir
     \<and> (output_dir = None \<or> output_dir = Some [] \<longrightarrow>
          out_dir input_file output_dir = parent (Path input_file))
     \<and> drop (length (convert_cmd input_file output_format output_dir quality) - 2)
          (convert_cmd input_file output_format output_dir quality) =
         [''-y'', str_path (output_file input_file output_format output_dir)]
     \<and> (output_dir = Some d \<and> d \<noteq> [] \<longrightarrow>
          out_dir input_file output_dir = Path (Str d)
          \<and> (case mkdir (Path (Str d)) True True fs of
               (Inl e, fs1) \<Rightarrow>
                 convert_audio t input_file output_format output_dir quality fs = (Inl e, fs1)
             | (Inr u, fs1) \<Rightarrow>
                 is_dir (Path (Str d)) fs1
                 \<and> list_all (\<lambda>q. is_dir q fs1) (ancestors (Path (Str d)))
                 \<and> snd (convert_audio t input_file output_format output_dir quality fs) =
                     snd (t (convert_cmd input_file output_format output_dir quality) fs1)))"
proof -
  let ?key = "stem (Path input_file) @ ''.'' @ output_format"
  let ?od = "out_dir input_file output_dir"
  have "CHR ''/'' \<notin> set ?key"
    using stem_no_sep [OF valid_Path [OF assms(1)]] assms(2) by auto
  moreover have "?key \<noteq> []" by simp
  moreover have "?key \<noteq> ''.''"
    using assms(2) by (cases "stem (Path input_file)") auto
  ultimately have j: "joinpath ?od ?key = PosixPath (root ?od) (tail ?od @ [?key])"
    by (rule joinpath_single)
  have nm: "name (output_file input_file output_format output_dir) = ?key"
    unfolding output_file_def j by (simp add: name_def)
  have par: "parent (output_file input_file output_format output_dir) = ?od"
    unfolding output_file_def j by (simp add: parent_def)
  have unset: "?od = parent (Path input_file)" if "output_dir = None \<or> output_dir = Some []"
    using that by (auto simp: out_dir_def)
  have y: "drop (length (convert_cmd input_file output_format output_dir quality) - 2)
          (convert_cmd input_file output_format output_dir quality) =
         [''-y'', str_path (output_file input_file output_format output_dir)]"
    by (simp add: convert_cmd_def)
  have mk: "?od = Path (Str d)
          \<and> (case mkdir (Path (Str d)) True True fs of
               (Inl e, fs1) \<Rightarrow>
                 convert_audio t input_file output_format output_dir quality fs = (Inl e, fs1)
             | (Inr u, fs1) \<Rightarrow>
                 is_dir (Path (Str d)) fs1
                 \<and> list_all (\<lambda>q. is_dir q fs1) (ancestors (Path (Str d)))
                 \<and> snd (convert_audio t input_file output_format output_dir quality fs) =
                     snd (t (convert_cmd input_file output_format output_dir quality) fs1))"
    if set: "output_dir = Some d \<and> d \<noteq> []"
  proof (cases "mkdir (Path (Str d)) True True fs")
    case (Pair res fs1)
    from set have od: "?od = Path (Str d)" by (simp add: out_dir_def)
    from set have tr: "truthy output_dir" by simp
    show ?thesis
    proof (cases res)
      case (Inl e)
      with Pair tr od show ?thesis by (simp add: convert_audio_def)
    next
      case (Inr u)
      with Pair have dir: "is_dir (Path (Str d)) fs1"
        using mkdir_is_dir by blast
      then have anc: "list_all (\<lambda>q. is_dir q fs1) (ancestors (Path (Str d)))"
        unfolding list_all_iff using is_dir_ancestors by blast
      have "snd (convert_audio t input_file output_format output_dir quality fs) =
                   snd (t (convert_cmd input_file output_format output_dir quality) fs1)"
        using Pair Inr tr od
        by (auto simp: convert_audio_def subprocess_run_def
                 split: prod.splits proc.splits sum.splits exn.splits)
      with dir anc Pair Inr od show ?thesis by simp
    qed
  qed
  from nm par unset y mk show ?thesis by blast
qed

theorem output_path_resolution_witness:
  "valid_pathlike (Str ''../music/a.m4a'')
   \<and> name (output_file (Str ''../music/a.m4a'') ''mp3'' (Some ''out/mp3'')) = ''a.mp3''
   \<and> parent (output_file (Str ''../music/a.m4a'') ''mp3'' (Some ''out/mp3'')) =
       PosixPath [] [''out'', ''mp3'']
   \<and> is_dir (PosixPath [] [''out'', ''mp3''])
       (snd (convert_audio ffmpeg_ok (Str ''../music/a.m4a'') ''mp3'' (Some ''out/mp3'') ''high''
          example_fs))
   \<and> is_dir (PosixPath [] [''out''])
       (snd (convert_audio ffmpeg_ok (Str ''../music/a.m4a'') ''mp3'' (Some ''out/mp3'') ''high''
          example_fs))
   \<and> \<not> is_dir (PosixPath [] [''out'']) example_fs"
proof -
  let ?fs1 = "\<lparr>root_dir =
        Dir [(''music'',
              Dir [(''a.m4a'', File), (''b.m4a'', File),
                   (''sub'', Dir [(''c.m4a'', File)]), (''notes.txt'', File)]),
             (''home'', Dir [(''out'', Dir [(''mp3'', Dir [])])])],
      cwd = [''home'']\<rparr>"
  have v: "valid_pathlike (Str ''../music/a.m4a'')" by simp
  have f: "''mp3'' = ''mp3'' \<or> ''mp3'' = ''wav''" by simp
  have st: "stem (parse_path ''../music/a.m4a'') = ''a''" by code_simp
  have pd: "parse_path ''out/mp3'' = PosixPath [] [''out'', ''mp3'']" by code_simp
  have od: "out_dir (Str ''../music/a.m4a'') (Some ''out/mp3'') = PosixPath [] [''out'', ''mp3'']"
    by code_simp
  have mk: "mkdir (PosixPath [] [''out'', ''mp3'']) True True example_fs = (Inr (), ?fs1)"
    by code_simp
  have anc: "ancestors (PosixPath [] [''out'', ''mp3'']) = [PosixPath [] [''out''], PosixPath [] []]"
    by code_simp
  have ok: "snd (ffmpeg_ok cmd ?fs1) = ?fs1" for cmd
    by (simp add: ffmpeg_ok_def)
  have before: "\<not> is_dir (PosixPath [] [''out'']) example_fs"
    by code_simp
  show ?thesis
    using v before
      output_path_resolution [OF v f, where output_dir = "Some ''out/mp3''"
        and quality = "''high''" and d = "''out/mp3''" and fs = example_fs and t = ffmpeg_ok]
    by (simp add: st pd od mk anc ok)
qed

subsection \<open>The batch\<close>

lemma prints_all: "list_all enc ms \<Longrightarrow> prints enc ms out = (Inr (), out @ ms)"
  by (induction ms arbitrary: out) (simp_all add: print_def)

lemma prints_raises:
  "\<not> list_all enc ms \<Longrightarrow> \<exists>out1. prints enc ms out = (Inl UnicodeEncodeError, out1)"
  by (induction ms arbitrary: out) (auto simp: print_def)

text \<open>The files found are found under a path that exists.\<close>

lemma m4a_files_exists: "m4a_files p recursive fs \<noteq> [] \<Longrightarrow> exists p fs"
  by (auto simp: m4a_files_def glob_def rglob_def exists_def split: if_splits sum.splits)

lemma length_outcomes: "length (outcomes t fmt od q files fs) = length files"
  by (induction files arbitrary: fs) simp_all

text \<open>A returned outcome is a success or a failure, and not both.\<close>

lemma returned_counts:
  "list_all returned os \<Longrightarrow>
     length (filter is_success os) + length (filter is_failure os) = length os"
proof (induction os)
  case Nil
  then show ?case by simp
next
  case (Cons a os)
  obtain f r where a: "a = (f, r)" by (cases a)
  from Cons.prems a obtain ok v where r: "r = Inr (ok, v)" by (cases r) auto
  from Cons show ?case by (simp add: a r)
qed

text \<open>
  When every conversion returns and every message can be printed, the loop goes through
  the whole list: it ends normally, having counted the successes and the failures and
  printed the messages of every file, on the filesystem that the last conversion left.
\<close>

lemma convert_loop_returned:
  assumes "list_all returned (outcomes t fmt od q files fs)"
    and "list_all enc (reports n idx (outcomes t fmt od q files fs))"
  shows "convert_loop enc t fmt od q n idx files (sc, fc) (fs, out) =
           (Inr (sc + length (filter is_success (outcomes t fmt od q files fs)),
                 fc + length (filter is_failure (outcomes t fmt od q files fs))),
            fs_after t fmt od q files fs,
            out @ reports n idx (outcomes t fmt od q files fs))"
  using assms
proof (induction files arbitrary: idx sc fc fs out)
  case Nil
  then show ?case by simp
next
  case (Cons f files)
  obtain r fs1 where c: "convert_audio t (PathObj f) fmt od q fs = (r, fs1)"
    by (cases "convert_audio t (PathObj f) fmt od q fs")
  from Cons.prems(1) c obtain ok v where r: "r = Inr (ok, v)"
    by (cases r) auto
  from Cons.prems c r have ret: "list_all returned (outcomes t fmt od q files fs1)"
    and enc_rest: "list_all enc (reports n (idx + 1) (outcomes t fmt od q files fs1))"
    and enc_a: "enc (Converting idx n (name f))"
    and enc_r: "enc (if ok then Succeeded v else Failed v)"
    by simp_all
  note ih = Cons.IH [OF ret enc_rest]
  show ?case
  proof (cases ok)
    case True
    with enc_a enc_r c r ih [of "sc + 1" fc "out @ [Converting idx n (name f), Succeeded v]"]
    show ?thesis by (simp add: print_def)
  next
    case False
    with enc_a enc_r c r ih [of sc "fc + 1" "out @ [Converting idx n (name f), Failed v]"]
    show ?thesis by (simp add: print_def)
  qed
qed

text \<open>
  When a conversion raises, or a message cannot be printed, the loop ends with an
  exception.
\<close>

lemma convert_loop_raised:
  assumes "\<not> (list_all returned (outcomes t fmt od q files fs)
              \<and> list_all enc (reports n idx (outcomes t fmt od q files fs)))"
  shows "\<exists>e w'. convert_loop enc t fmt od q n idx files (sc, fc) (fs, out) = (Inl e, w')"
  using assms
proof (induction files arbitrary: idx sc fc fs out)
  case Nil
  then show ?case by simp
next
  case (Cons f files)
  obtain r fs1 where c: "convert_audio t (PathObj f) fmt od q fs = (r, fs1)"
    by (cases "convert_audio t (PathObj f) fmt od q fs")
  show ?case
  proof (cases "enc (Converting idx n (name f))")
    case False
    then show ?thesis by (simp add: print_def)
  next
    case enc_a: True
    show ?thesis
    proof (cases r)
      case (Inl e)
      with enc_a c show ?thesis by (simp add: print_def)
    next
      case (Inr p)
      obtain ok v where p: "p = (ok, v)" by (cases p)
      show ?thesis
      proof (cases "enc (if ok then Succeeded v else Failed v)")
        case False
        with enc_a c Inr p show ?thesis by (cases ok) (simp_all add: print_def)
      next
        case enc_r: True
        from Cons.prems c Inr p enc_a enc_r
        have rest: "\<not> (list_all returned (outcomes t fmt od q files fs1)
              \<and> list_all enc (reports n (idx + 1) (outcomes t fmt od q files fs1)))"
          by (cases ok) auto
        from Cons.IH [OF rest] enc_a enc_r c Inr p show ?thesis
          by (cases ok) (simp_all add: print_def)
      qed
    qed
  qed
qed

text \<open>So a loop that ends normally went through the whole list.\<close>

lemma convert_loop_InrD:
  assumes "convert_loop enc t fmt od q n idx files (sc, fc) (fs, out) = (Inr (sc', fc'), w')"
  shows "list_all returned (outcomes t fmt od q files fs)"
    and "sc' = sc + length (filter is_success (outcomes t fmt od q files fs))"
    and "fc' = fc + length (filter is_failure (outcomes t fmt od q files fs))"
    and "w' = (fs_after t fmt od q files fs, out @ reports n idx (outcomes t fmt od q files fs))"
proof -
  have ok: "list_all returned (outcomes t fmt od q files fs)
      \<and> list_all enc (reports n idx (outcomes t fmt od q files fs))"
    using convert_loop_raised [of t fmt od q files fs enc n idx sc fc out] assms by auto
  then show "list_all returned (outcomes t fmt od q files fs)" by simp
  from ok convert_loop_returned [of t fmt od q files fs enc n idx sc fc out] assms
  show "sc' = sc + length (filter is_success (outcomes t fmt od q files fs))"
    and "fc' = fc + length (filter is_failure (outcomes t fmt od q files fs))"
    and "w' = (fs_after t fmt od q files fs, out @ reports n idx (outcomes t fmt od q files fs))"
    by simp_all
qed

lemma convert_loop_counts:
  assumes "convert_loop enc t fmt od q n idx files (sc, fc) w = (Inr (sc', fc'), w')"
  shows "sc' + fc' = sc + fc + length files \<and> sc \<le> sc' \<and> fc \<le> fc'"
proof -
  obtain fs out where w: "w = (fs, out)" by (cases w)
  note l = assms [unfolded w]
  from returned_counts [OF convert_loop_InrD(1) [OF l]]
    convert_loop_InrD(2) [OF l] convert_loop_InrD(3) [OF l]
  show ?thesis by (simp add: length_outcomes)
qed

lemma prints_InrD:
  assumes "prints enc ms out = (Inr u, out1)"
  shows "out1 = out @ ms" and "list_all enc ms"
proof -
  show e: "list_all enc ms"
    using prints_raises [of enc ms out] assms by auto
  from prints_all [OF e, of out] assms show "out1 = out @ ms" by simp
qed



text \<open>
  Claim C2. In a loop that ends without an exception the two counters have grown
  together by the number of files, and neither has shrunk; over a single file, exactly
  one of them has grown, by one. A run of \<open>batch_convert\<close> that found files and ends
  without an exception ends its output with the two totals, and they add up to the number
  of files found.
\<close>

theorem counts_add_up_to_files_found:
  "(convert_loop enc t output_format output_dir quality n idx files (sc, fc) w =
      (Inr (sc', fc'), w')
      \<longrightarrow> sc' + fc' = sc + fc + length files \<and> sc \<le> sc' \<and> fc \<le> fc')
   \<and> (convert_loop enc t output_format output_dir quality n idx [f] (sc, fc) w =
        (Inr (sc1, fc1), w1)
      \<longrightarrow> (sc1 = sc + 1 \<and> fc1 = fc) \<or> (sc1 = sc \<and> fc1 = fc + 1))
   \<and> (batch_convert enc t input_dir output_format output_dir quality recursive (fs, out0) =
         (Inr (), fs', out)
       \<and> m4a_files (Path (Str input_dir)) recursive fs \<noteq> []
      \<longrightarrow> (\<exists>a b. out = butlast (butlast out) @ [SuccessTotal a, FailTotal b]
                 \<and> a + b = length (m4a_files (Path (Str input_dir)) recursive fs)))"
proof -
  have one: "(sc1 = sc + 1 \<and> fc1 = fc) \<or> (sc1 = sc \<and> fc1 = fc + 1)"
    if "convert_loop enc t output_format output_dir quality n idx [f] (sc, fc) w =
          (Inr (sc1, fc1), w1)"
    using convert_loop_counts [OF that] by auto
  have batch: "\<exists>a b. out = butlast (butlast out) @ [SuccessTotal a, FailTotal b]
                 \<and> a + b = length (m4a_files (Path (Str input_dir)) recursive fs)"
    if b: "batch_convert enc t input_dir output_format output_dir quality recursive (fs, out0) =
         (Inr (), fs', out)"
      and ne: "m4a_files (Path (Str input_dir)) recursive fs \<noteq> []"
  proof -
    let ?files = "m4a_files (parse_path input_dir) recursive fs"
    let ?head = "[Found (length ?files), OutputFormat output_format, QualitySetting quality, Rule]"
    from ne have ex: "exists (parse_path input_dir) fs"
      using m4a_files_exists [of "parse_path input_dir" recursive fs] by simp
    obtain r1 out1 where h: "prints enc ?head out0 = (r1, out1)"
      by (cases "prints enc ?head out0")
    from b ne ex h obtain u where r1: "r1 = Inr u"
      by (cases r1) (auto simp: batch_convert_def Let_def)
    obtain res w2 where
      l: "convert_loop enc t output_format output_dir quality (length ?files) 1 ?files (0, 0)
            (fs, out1) = (res, w2)"
      by (cases "convert_loop enc t output_format output_dir quality (length ?files) 1 ?files
                   (0, 0) (fs, out1)")
    from b ne ex h r1 l obtain a c where res: "res = Inr (a, c)"
      by (cases res) (auto simp: batch_convert_def Let_def)
    obtain fs2 out2 where w2: "w2 = (fs2, out2)" by (cases w2)
    let ?foot = "[Rule, Finished, SuccessTotal a, FailTotal c]"
    from b ne ex h r1 l res w2 have f: "prints enc ?foot out2 = (Inr (), out)"
      by (auto simp: batch_convert_def Let_def split: prod.splits)
    from prints_InrD(1) [OF f] have out: "out = out2 @ ?foot" .
    from convert_loop_counts [OF l [unfolded res]]
    have "a + c = length ?files" by simp
    moreover from out have "out = butlast (butlast out) @ [SuccessTotal a, FailTotal c]"
      by (simp add: butlast_append)
    ultimately show ?thesis by auto
  qed
  from convert_loop_counts one batch show ?thesis by blast
qed

theorem counts_add_up_to_files_found_witness:
  "batch_convert stream_any ffmpeg_rejects_b ''../music'' ''mp3'' None ''high'' True
     (example_fs, []) =
     (Inr (), example_fs,
      [Found 3, OutputFormat ''mp3'', QualitySetting ''high'', Rule,
       Converting 1 3 ''a.m4a'', Succeeded (PathVal (PosixPath [] [''..'', ''music'', ''a.mp3''])),
       Converting 2 3 ''b.m4a'',
       Failed (StrOfExn (CalledProcessError 1
         [''ffmpeg'', ''-i'', ''../music/b.m4a'', ''-codec:a'', ''libmp3lame'', ''-b:a'', ''320k'',
          ''-y'', ''../music/b.mp3''])),
       Converting 3 3 ''c.m4a'',
       Succeeded (PathVal (PosixPath [] [''..'', ''music'', ''sub'', ''c.mp3''])),
       Rule, Finished, SuccessTotal 2, FailTotal 1])
   \<and> m4a_files (Path (Str ''../music'')) True example_fs \<noteq> []
   \<and> 2 + 1 = length (m4a_files (Path (Str ''../music'')) True example_fs)"
proof -
  let ?out = "[Found 3, OutputFormat ''mp3'', QualitySetting ''high'', Rule,
       Converting 1 3 ''a.m4a'', Succeeded (PathVal (PosixPath [] [''..'', ''music'', ''a.mp3''])),
       Converting 2 3 ''b.m4a'',
       Failed (StrOfExn (CalledProcessError 1
         [''ffmpeg'', ''-i'', ''../music/b.m4a'', ''-codec:a'', ''libmp3lame'', ''-b:a'', ''320k'',
          ''-y'', ''../music/b.mp3''])),
       Converting 3 3 ''c.m4a'',
       Succeeded (PathVal (PosixPath [] [''..'', ''music'', ''sub'', ''c.mp3''])),
       Rule, Finished, SuccessTotal 2, FailTotal 1]"
  have run: "batch_convert stream_any ffmpeg_rejects_b ''../music'' ''mp3'' None ''high'' True
      (example_fs, []) = (Inr (), example_fs, ?out)"
    by code_simp
  have ne: "m4a_files (Path (Str ''../music'')) True example_fs \<noteq> []"
    by code_simp
  from counts_add_up_to_files_found [where enc = stream_any and t = ffmpeg_rejects_b
      and input_dir = "''../music''" and output_format = "''mp3''" and output_dir = None
      and quality = "''high''" and recursive = True and fs = example_fs and ?out0.0 = "[]"
      and fs' = example_fs and out = ?out] run ne
  obtain a b where "?out = butlast (butlast ?out) @ [SuccessTotal a, FailTotal b]"
    and sum: "a + b = length (m4a_files (Path (Str ''../music'')) True example_fs)"
    by blast
  then have "a = 2" and "b = 1" by simp_all
  with sum run ne show ?thesis by simp
qed




subsection \<open>Discovery\<close>

text \<open>A pattern without \<open>*\<close> and \<open>?\<close> matches itself only.\<close>

lemma fnmatch_literal:
  "\<forall>p\<in>set pat. p \<noteq> CHR ''*'' \<and> p \<noteq> CHR ''?'' \<Longrightarrow> fnmatch k pat \<longleftrightarrow> k = pat"
  by (induction k pat rule: fnmatch.induct) auto

text \<open>A star before such a pattern matches the names that end with it.\<close>

lemma fnmatch_star_literal:
  assumes "\<forall>p\<in>set lit. p \<noteq> CHR ''*'' \<and> p \<noteq> CHR ''?''"
  shows "fnmatch k (CHR ''*'' # lit) \<longleftrightarrow> (\<exists>s. k = s @ lit)"
proof (induction k)
  case Nil
  show ?case using fnmatch_literal [OF assms, of "[]"] by auto
next
  case (Cons c cs)
  have "fnmatch (c # cs) (CHR ''*'' # lit) \<longleftrightarrow> c # cs = lit \<or> (\<exists>s. cs = s @ lit)"
    using fnmatch_literal [OF assms, of "c # cs"] Cons by simp
  also have "\<dots> \<longleftrightarrow> (\<exists>s. c # cs = s @ lit)"
    by (auto simp: Cons_eq_append_conv)
  finally show ?case .
qed

lemma has_m4a_extension_iff: "has_m4a_extension k \<longleftrightarrow> (\<exists>s. k = s @ ''.m4a'')"
proof
  assume "has_m4a_extension k"
  then have "k = take (length k - 4) k @ ''.m4a''"
    by (metis append_take_drop_id has_m4a_extension_def)
  then show "\<exists>s. k = s @ ''.m4a''" ..
next
  assume "\<exists>s. k = s @ ''.m4a''"
  then show "has_m4a_extension k" by (auto simp: has_m4a_extension_def)
qed

lemma fnmatch_m4a: "fnmatch k ''*.m4a'' \<longleftrightarrow> has_m4a_extension k"
  using fnmatch_star_literal [of "''.m4a''" k] by (simp add: has_m4a_extension_iff)

lemma is_entry_in_iff:
  "is_entry_in cs k rel \<longleftrightarrow> (\<exists>v. (k, v) \<in> set cs \<and> (rel = [] \<or> is_entry v rel))"
proof (induction cs)
  case Nil
  then show ?case by simp
next
  case (Cons a cs)
  obtain k1 v1 where a: "a = (k1, v1)" by (cases a)
  show ?case unfolding a using Cons by auto
qed

lemma is_entry_not_Nil: "is_entry d rel \<Longrightarrow> rel \<noteq> []"
  by (cases d) auto

text \<open>The plain search finds the entries of depth 1 whose name matches.\<close>

lemma glob_rel_iff:
  "rel \<in> set (glob_rel pat d) \<longleftrightarrow> is_entry d rel \<and> length rel = 1 \<and> fnmatch (last rel) pat"
proof (cases d)
  case File
  then show ?thesis by simp
next
  case (Dir cs)
  show ?thesis
  proof (cases rel)
    case Nil
    with Dir show ?thesis by auto
  next
    case (Cons k rest)
    with Dir show ?thesis by (cases rest) (force simp: is_entry_in_iff image_iff)+
  qed
qed

lemma rglob_children_iff:
  "rel \<in> set (rglob_children pat cs) \<longleftrightarrow>
     (\<exists>k v rest. (k, v) \<in> set cs \<and> rel = k # rest \<and> rest \<in> set (rglob_rel pat v))"
proof (induction cs)
  case Nil
  then show ?case by simp
next
  case (Cons a cs)
  obtain k1 v1 where a: "a = (k1, v1)" by (cases a)
  show ?case unfolding a using Cons by auto
qed

text \<open>The recursive search finds the entries of every depth whose name matches.\<close>

lemma rglob_rel_iff:
  "rel \<in> set (rglob_rel pat d) \<longleftrightarrow> is_entry d rel \<and> fnmatch (last rel) pat"
proof (induction rel arbitrary: d)
  case Nil
  show ?case
  proof (cases d)
    case File
    then show ?thesis by simp
  next
    case (Dir cs)
    then show ?thesis by (auto simp: rglob_children_iff)
  qed
next
  case (Cons k rest)
  show ?case
  proof (cases d)
    case File
    then show ?thesis by simp
  next
    case (Dir cs)
    show ?thesis
    proof (cases rest)
      case Nil
      have "[k] \<notin> set (rglob_children pat cs)"
        using Cons.IH by (auto simp: rglob_children_iff Nil dest: is_entry_not_Nil)
      with Dir Nil glob_rel_iff [of "[k]" pat d] show ?thesis
        by auto
    next
      case (Cons k2 rest2)
      have "k # rest \<notin> set (glob_rel pat (Dir cs))"
        using Cons by auto
      with Dir Cons Cons.IH show ?thesis
        by (auto simp: rglob_children_iff is_entry_in_iff)
    qed
  qed
qed

text \<open>
  Claim C7. When the input path resolves to the node \<open>d\<close>, the files found are the input
  path extended by exactly these entries of the tree under \<open>d\<close>: without \<open>recursive\<close>,
  the entries of depth 1 whose name ends in \<open>.m4a\<close>; with \<open>recursive\<close>, the entries of
  every depth whose name ends in \<open>.m4a\<close>. So of a match \<open>a\<close> at depth 1 and a match
  \<open>c\<close> at depth 2, in the subdirectory \<open>s\<close>, the plain search returns the first and not
  the second, and the recursive search returns both.
\<close>

theorem discovery_by_extension_and_depth:
  assumes "resolve fs input_path = Inr (loc, d)"
  shows "set (m4a_files input_path False fs) =
           (\<lambda>rel. PosixPath (root input_path) (tail input_path @ rel)) `
             {rel. is_entry d rel \<and> length rel = 1 \<and> has_m4a_extension (last rel)}
         \<and> set (m4a_files input_path True fs) =
           (\<lambda>rel. PosixPath (root input_path) (tail input_path @ rel)) `
             {rel. is_entry d rel \<and> has_m4a_extension (last rel)}
         \<and> (is_entry d [a] \<and> has_m4a_extension a \<and> is_entry d [s, c] \<and> has_m4a_extension c \<longrightarrow>
              PosixPath (root input_path) (tail input_path @ [a]) \<in> set (m4a_files input_path False fs)
              \<and> PosixPath (root input_path) (tail input_path @ [s, c]) \<notin> set (m4a_files input_path False fs)
              \<and> PosixPath (root input_path) (tail input_path @ [a]) \<in> set (m4a_files input_path True fs)
              \<and> PosixPath (root input_path) (tail input_path @ [s, c]) \<in> set (m4a_files input_path True fs))"
proof -
  let ?ext = "\<lambda>rel. PosixPath (root input_path) (tail input_path @ rel)"
  have g: "set (glob_rel ''*.m4a'' d) =
      {rel. is_entry d rel \<and> length rel = 1 \<and> has_m4a_extension (last rel)}"
    using glob_rel_iff [of _ "''*.m4a''" d] fnmatch_m4a by blast
  have r: "set (rglob_rel ''*.m4a'' d) = {rel. is_entry d rel \<and> has_m4a_extension (last rel)}"
    using rglob_rel_iff [of _ "''*.m4a''" d] fnmatch_m4a by blast
  have plain: "set (m4a_files input_path False fs) =
      ?ext ` {rel. is_entry d rel \<and> length rel = 1 \<and> has_m4a_extension (last rel)}"
    using assms by (simp add: m4a_files_def glob_def g)
  have deep: "set (m4a_files input_path True fs) =
      ?ext ` {rel. is_entry d rel \<and> has_m4a_extension (last rel)}"
    using assms by (simp add: m4a_files_def rglob_def r)
  have inj: "?ext x = ?ext y \<longleftrightarrow> x = y" for x y by simp
  have "?ext [a] \<in> set (m4a_files input_path False fs)
      \<and> ?ext [s, c] \<notin> set (m4a_files input_path False fs)
      \<and> ?ext [a] \<in> set (m4a_files input_path True fs)
      \<and> ?ext [s, c] \<in> set (m4a_files input_path True fs)"
    if "is_entry d [a] \<and> has_m4a_extension a \<and> is_entry d [s, c] \<and> has_m4a_extension c"
    using that unfolding plain deep by (auto simp: image_iff)
  with plain deep show ?thesis by blast
qed

theorem discovery_by_extension_and_depth_witness:
  "resolve example_fs (parse_path ''../music'') =
     Inr ([''music''],
          Dir [(''a.m4a'', File), (''b.m4a'', File), (''sub'', Dir [(''c.m4a'', File)]),
               (''notes.txt'', File)])
   \<and> m4a_files (parse_path ''../music'') False example_fs =
       [PosixPath [] [''..'', ''music'', ''a.m4a''], PosixPath [] [''..'', ''music'', ''b.m4a'']]
   \<and> m4a_files (parse_path ''../music'') True example_fs =
       [PosixPath [] [''..'', ''music'', ''a.m4a''], PosixPath [] [''..'', ''music'', ''b.m4a''],
        PosixPath [] [''..'', ''music'', ''sub'', ''c.m4a'']]
   \<and> PosixPath [] [''..'', ''music'', ''a.m4a'']
       \<in> set (m4a_files (parse_path ''../music'') False example_fs)
   \<and> PosixPath [] [''..'', ''music'', ''sub'', ''c.m4a'']
       \<notin> set (m4a_files (parse_path ''../music'') False example_fs)
   \<and> PosixPath [] [''..'', ''music'', ''sub'', ''c.m4a'']
       \<in> set (m4a_files (parse_path ''../music'') True example_fs)"
proof -
  let ?d = "Dir [(''a.m4a'', File), (''b.m4a'', File), (''sub'', Dir [(''c.m4a'', File)]),
               (''notes.txt'', File)]"
  have res: "resolve example_fs (parse_path ''../music'') = Inr ([''music''], ?d)"
    by code_simp
  have plain: "m4a_files (parse_path ''../music'') False example_fs =
       [PosixPath [] [''..'', ''music'', ''a.m4a''], PosixPath [] [''..'', ''music'', ''b.m4a'']]"
    by code_simp
  have deep: "m4a_files (parse_path ''../music'') True example_fs =
       [PosixPath [] [''..'', ''music'', ''a.m4a''], PosixPath [] [''..'', ''music'', ''b.m4a''],
        PosixPath [] [''..'', ''music'', ''sub'', ''c.m4a'']]"
    by code_simp
  have pp: "parse_path ''../music'' = PosixPath [] [''..'', ''music'']"
    by code_simp
  have e: "is_entry ?d [''a.m4a''] \<and> has_m4a_extension ''a.m4a''
      \<and> is_entry ?d [''sub'', ''c.m4a''] \<and> has_m4a_extension ''c.m4a''"
    by code_simp
  from discovery_by_extension_and_depth [OF res, where a = "''a.m4a''" and s = "''sub''"
      and c = "''c.m4a''", unfolded pp path.sel append.simps] e
  have "PosixPath [] [''..'', ''music'', ''a.m4a'']
       \<in> set (m4a_files (parse_path ''../music'') False example_fs)
   \<and> PosixPath [] [''..'', ''music'', ''sub'', ''c.m4a'']
       \<notin> set (m4a_files (parse_path ''../music'') False example_fs)
   \<and> PosixPath [] [''..'', ''music'', ''sub'', ''c.m4a'']
       \<in> set (m4a_files (parse_path ''../music'') True example_fs)"
    unfolding pp by blast
  with res plain deep show ?thesis by blast
qed

end
